theory Spec2Isabelle
  imports Main "HOL-Library.AList"
begin

section \<open>Texts\<close>

text \<open>
  A Python \<open>str\<close> is modelled as a \<open>string\<close>: a list of characters, one \<open>char\<close> per
  code point, so the model covers the texts whose code points are below 256.
\<close>

definition nl :: char where
  "nl = CHR 0x0A"

definition dq :: char where
  "dq = CHR 0x22"

definition bs :: char where
  "bs = CHR 0x5C"

text \<open>Python's \<open>needle in haystack\<close> on strings.\<close>

fun starts_with :: "string \<Rightarrow> string \<Rightarrow> bool" where
  "starts_with [] s = True"
| "starts_with (p # ps) [] = False"
| "starts_with (p # ps) (c # cs) = (p = c \<and> starts_with ps cs)"

fun contains :: "string \<Rightarrow> string \<Rightarrow> bool" where
  "contains needle [] = (needle = [])"
| "contains needle (c # cs) = (starts_with needle (c # cs) \<or> contains needle cs)"

section \<open>The comment-stripping reader\<close>

text \<open>
  \<open>strip_json_comments\<close> of \<open>css_ts_setup.py\<close>: a \<open>while\<close> loop over the index \<open>i\<close> with
  the three flags \<open>in_string\<close>, \<open>in_single\<close>, \<open>in_multi\<close> and the output buffer.
  \<open>nxt\<close> is the character after position \<open>i\<close> as a string of length one, or the empty
  string at the end of the text.
\<close>

definition nxt :: "string \<Rightarrow> nat \<Rightarrow> string" where
  "nxt v i = (if i + 1 < length v then [v ! (i + 1)] else [])"

function strip_loop :: "string \<Rightarrow> nat \<Rightarrow> bool \<Rightarrow> bool \<Rightarrow> bool \<Rightarrow> string \<Rightarrow> string" where
  "strip_loop v i in_string in_single in_multi output =
    (if i < length v then
       (if in_single then
          (if v ! i = nl
           then strip_loop v (i + 1) in_string False in_multi (output @ [v ! i])
           else strip_loop v (i + 1) in_string in_single in_multi output)
        else if in_multi then
          (if v ! i = CHR ''*'' \<and> nxt v i = ''/''
           then strip_loop v (i + 2) in_string in_single False output
           else strip_loop v (i + 1) in_string in_single in_multi output)
        else if in_string then
          (if v ! i = bs \<and> nxt v i \<noteq> []
           then strip_loop v (i + 2) in_string in_single in_multi (output @ [v ! i] @ nxt v i)
           else if v ! i = dq
           then strip_loop v (i + 1) False in_single in_multi (output @ [v ! i])
           else strip_loop v (i + 1) in_string in_single in_multi (output @ [v ! i]))
        else if v ! i = dq
        then strip_loop v (i + 1) True in_single in_multi (output @ [v ! i])
        else if v ! i = CHR ''/'' \<and> nxt v i = ''/''
        then strip_loop v (i + 2) in_string True in_multi output
        else if v ! i = CHR ''/'' \<and> nxt v i = ''*''
        then strip_loop v (i + 2) in_string in_single True output
        else strip_loop v (i + 1) in_string in_single in_multi (output @ [v ! i]))
     else output)"
  by pat_completeness auto
termination
  by (relation "measure (\<lambda>(v, i, in_string, in_single, in_multi, output). length v - i)") auto

declare strip_loop.simps [simp del]

definition strip_json_comments :: "string \<Rightarrow> string" where
  "strip_json_comments v = strip_loop v 0 False False False []"

text \<open>
  The scanner as the specification words it: four mutually exclusive lexical states and
  one transition per character (two for a delimiter or an escape).
\<close>

datatype lex_state = PlainCode | InString | LineComment | BlockComment

fun scan :: "lex_state \<Rightarrow> string \<Rightarrow> string" where
  "scan st [] = []"
| "scan LineComment (c # cs) =
     (if c = nl then c # scan PlainCode cs else scan LineComment cs)"
| "scan BlockComment [c] = []"
| "scan BlockComment (c # d # cs) =
     (if c = CHR ''*'' \<and> d = CHR ''/'' then scan PlainCode cs else scan BlockComment (d # cs))"
| "scan InString [c] = [c]"
| "scan InString (c # d # cs) =
     (if c = bs then c # d # scan InString cs
      else if c = dq then c # scan PlainCode (d # cs)
      else c # scan InString (d # cs))"
| "scan PlainCode [c] = [c]"
| "scan PlainCode (c # d # cs) =
     (if c = dq then c # scan InString (d # cs)
      else if c = CHR ''/'' \<and> d = CHR ''/'' then scan LineComment cs
      else if c = CHR ''/'' \<and> d = CHR ''*'' then scan BlockComment cs
      else c # scan PlainCode (d # cs))"

text \<open>The lexical state that the three flags of the loop stand for.\<close>

definition flags_state :: "bool \<Rightarrow> bool \<Rightarrow> bool \<Rightarrow> lex_state" where
  "flags_state in_string in_single in_multi =
     (if in_single then LineComment else if in_multi then BlockComment
      else if in_string then InString else PlainCode)"

definition exclusive :: "bool \<Rightarrow> bool \<Rightarrow> bool \<Rightarrow> bool" where
  "exclusive in_string in_single in_multi =
     (\<not> (in_string \<and> in_single) \<and> \<not> (in_string \<and> in_multi) \<and> \<not> (in_single \<and> in_multi))"

section \<open>Regular expressions\<close>

text \<open>
  The program edits the bundler configuration with six patterns of Python's \<open>re\<close> module.
  They use literal characters, a greedy star over a character class, an optional
  character and, under \<open>re.MULTILINE\<close>, the anchors \<open>^\<close> and \<open>$\<close>. \<open>rmatch\<close> is the
  backtracking matcher of \<open>re\<close> on that fragment: it returns the text left after the first
  match in priority order (a greedy item tries to take a character before it tries to take
  none). The flag \<open>bol\<close> says that the position is the start of the text or follows a
  newline.
\<close>

datatype rx = Chr char | Star "char \<Rightarrow> bool" | Opt char | Bol | Eol

definition lit :: "string \<Rightarrow> rx list" where
  "lit s = map Chr s"

text \<open>
  The class \<open>\s\<close> of a \<open>str\<close> pattern, on the code points below 256: the ASCII white space
  with the separators \<open>0x1c\<close> to \<open>0x1f\<close>, and \<open>0x85\<close> and \<open>0xa0\<close>.
\<close>

definition is_space :: "char \<Rightarrow> bool" where
  "is_space c = ((of_char c :: nat) \<in> {9, 10, 11, 12, 13, 28, 29, 30, 31, 32, 133, 160})"

fun rmatch :: "rx list \<Rightarrow> bool \<Rightarrow> string \<Rightarrow> string option" where
  "rmatch [] bol s = Some s"
| "rmatch (Bol # rs) bol s = (if bol then rmatch rs bol s else None)"
| "rmatch (Eol # rs) bol [] = rmatch rs bol []"
| "rmatch (Eol # rs) bol (x # xs) = (if x = nl then rmatch rs bol (x # xs) else None)"
| "rmatch (Chr c # rs) bol [] = None"
| "rmatch (Chr c # rs) bol (x # xs) = (if x = c then rmatch rs (x = nl) xs else None)"
| "rmatch (Opt c # rs) bol [] = rmatch rs bol []"
| "rmatch (Opt c # rs) bol (x # xs) =
     (if x = c
      then (case rmatch rs (x = nl) xs of Some r \<Rightarrow> Some r | None \<Rightarrow> rmatch rs bol (x # xs))
      else rmatch rs bol (x # xs))"
| "rmatch (Star p # rs) bol [] = rmatch rs bol []"
| "rmatch (Star p # rs) bol (x # xs) =
     (if p x
      then (case rmatch (Star p # rs) (x = nl) xs of
              Some r \<Rightarrow> Some r
            | None \<Rightarrow> rmatch rs bol (x # xs))
      else rmatch rs bol (x # xs))"

text \<open>
  \<open>re.search\<close>: the leftmost position with a match, as the text before the match, the
  match and the text after it.
\<close>

fun rsearch :: "rx list \<Rightarrow> bool \<Rightarrow> string \<Rightarrow> string \<Rightarrow> (string \<times> string \<times> string) option" where
  "rsearch rs bol pre [] =
     (case rmatch rs bol [] of Some r \<Rightarrow> Some (pre, [], r) | None \<Rightarrow> None)"
| "rsearch rs bol pre (x # xs) =
     (case rmatch rs bol (x # xs) of
        Some r \<Rightarrow> Some (pre, take (length (x # xs) - length r) (x # xs), r)
      | None \<Rightarrow> rsearch rs (x = nl) (pre @ [x]) xs)"

definition re_search :: "rx list \<Rightarrow> string \<Rightarrow> (string \<times> string \<times> string) option" where
  "re_search rs s = rsearch rs True [] s"

text \<open>\<open>re.sub(pattern, repl, string, count=1)\<close> for a replacement without escapes.\<close>

definition re_sub1 :: "rx list \<Rightarrow> string \<Rightarrow> string \<Rightarrow> string" where
  "re_sub1 rs repl s =
     (case re_search rs s of None \<Rightarrow> s | Some (pre, m, post) \<Rightarrow> pre @ repl @ post)"

text \<open>
  \<open>re.finditer\<close>: the spans \<open>(start, end)\<close> of the matches from left to right, each search
  starting where the match before it ended. The patterns of this program start with a
  literal, so no match is empty; after an empty match the model moves on by one character.
\<close>

function finditer :: "rx list \<Rightarrow> bool \<Rightarrow> nat \<Rightarrow> string \<Rightarrow> (nat \<times> nat) list" where
  "finditer rs bol pos [] =
     (case rmatch rs bol [] of Some r \<Rightarrow> [(pos, pos)] | None \<Rightarrow> [])"
| "finditer rs bol pos (x # xs) =
     (case rmatch rs bol (x # xs) of
        Some r \<Rightarrow>
          (if length r < length (x # xs)
           then (pos, pos + (length (x # xs) - length r))
                # finditer rs ((x # xs) ! (length (x # xs) - length r - 1) = nl)
                    (pos + (length (x # xs) - length r)) r
           else (pos, pos) # finditer rs (x = nl) (pos + 1) xs)
      | None \<Rightarrow> finditer rs (x = nl) (pos + 1) xs)"
  by pat_completeness auto
termination
  by (relation "measure (\<lambda>(rs, bol, pos, s). length s)") auto

definition import_rx :: "rx list" where
  "import_rx = [Bol] @ lit ''import'' @
     [Star (\<lambda>c. c \<noteq> CHR '';'' \<and> c \<noteq> nl), Opt CHR '';'', Star is_space, Eol]"

definition sveltekit_rx :: "rx list" where
  "sveltekit_rx = lit ''sveltekit'' @ [Star is_space, Chr CHR ''('', Star is_space, Chr CHR '')'']"

definition plugins_rx :: "rx list" where
  "plugins_rx = lit ''plugins'' @ [Star is_space, Chr CHR '':'', Star is_space, Chr CHR ''['']"

definition resolve_rx :: "rx list" where
  "resolve_rx = lit ''resolve'' @ [Star is_space, Chr CHR '':'', Star is_space, Chr CHR ''{'']"

definition alias_rx :: "rx list" where
  "alias_rx = lit ''alias'' @ [Star is_space, Chr CHR '':'', Star is_space, Chr CHR ''{'']"

definition define_config_rx :: "rx list" where
  "define_config_rx = lit ''defineConfig('' @ [Star is_space, Chr CHR ''{'']"

section \<open>Import insertion\<close>

definition insert_import :: "string \<Rightarrow> string \<Rightarrow> string" where
  "insert_import source import_line =
     (let matches = finditer import_rx True 0 source in
      if matches = [] then import_line @ [nl] @ source
      else take (snd (last matches)) source @ [nl] @ import_line
             @ drop (snd (last matches)) source)"

section \<open>JSON values, the file system and the environment\<close>

text \<open>
  What \<open>json.loads\<close> returns. A Python \<open>dict\<close> keeps its keys in insertion order: it is an
  association list, read with \<open>map_of\<close> and written with \<open>AList.update\<close>, which replaces the
  value of a key in place and appends a new key at the end. Floats are carried as their
  text; the program never computes with them.
\<close>

datatype json =
    JNull
  | JBool bool
  | JInt int
  | JFloat string
  | JStr string
  | JArr "json list"
  | JObj "(string \<times> json) list"

datatype py_error =
    JSONDecodeError
  | RecursionError
  | AttributeError
  | FileNotFoundError
  | OSError
  | UnicodeDecodeError

text \<open>
  The project root: each name is absent, a text file, or an entry that \<open>read_text\<close>
  cannot read (a directory, undecodable bytes, no permission). \<open>writes\<close> logs every
  \<open>write_text\<close> in order.
\<close>

datatype node = Content string | Unreadable

record world =
  files :: "string \<Rightarrow> node option"
  writes :: "(string \<times> string) list"

definition path_exists :: "world \<Rightarrow> string \<Rightarrow> bool" where
  "path_exists w name = (files w name \<noteq> None)"

definition read_text :: "world \<Rightarrow> string \<Rightarrow> py_error + string" where
  "read_text w name =
     (case files w name of
        None \<Rightarrow> Inl FileNotFoundError
      | Some Unreadable \<Rightarrow> Inl OSError
      | Some (Content s) \<Rightarrow> Inr s)"

text \<open>The program writes only to a path that it has just read.\<close>

definition write_text :: "world \<Rightarrow> string \<Rightarrow> string \<Rightarrow> world" where
  "write_text w name s =
     w\<lparr>files := (files w)(name \<mapsto> Content s), writes := writes w @ [(name, s)]\<rparr>"

text \<open>\<open>Path.suffix\<close> of a file name: the last dot and what follows it.\<close>

definition path_suffix :: "string \<Rightarrow> string" where
  "path_suffix name =
     (if CHR ''.'' \<in> set name
      then CHR ''.'' # rev (takeWhile (\<lambda>c. c \<noteq> CHR ''.'') (rev name))
      else [])"

text \<open>
  The parts of the run that are not code of the repository: \<open>json.loads\<close>, \<open>json.dumps\<close>
  with \<open>indent=2\<close>, the tool's own \<open>deno.json\<close> beside the \<open>tools\<close> directory, and the
  outcome of \<open>subprocess.run\<close> with \<open>check=True\<close> for a command line.
\<close>

record pyenv =
  json_loads :: "string \<Rightarrow> py_error + json"
  json_dumps :: "json \<Rightarrow> string"
  descriptor :: "node option"
  subprocess_ok :: "string list \<Rightarrow> bool"

record UpdateResult =
  changed :: bool
  "notes" :: "string list"
  warnings :: "string list"

definition new_result :: UpdateResult where
  "new_result = \<lparr>changed = False, notes = [], warnings = []\<rparr>"

definition README_VERSIONS :: "(string \<times> string) list" where
  "README_VERSIONS =
     [(''kit'', ''^2.50.2''),
      (''vite_plugin_svelte'', ''^6.2.4''),
      (''svelte'', ''^5.49.2''),
      (''vite'', ''^7.3.1'')]"

definition readme_version :: "string \<Rightarrow> string" where
  "readme_version k = (case map_of README_VERSIONS k of Some v \<Rightarrow> v | None \<Rightarrow> [])"

definition VITE_CONFIG_CANDIDATES :: "string list" where
  "VITE_CONFIG_CANDIDATES =
     [''vite.config.ts'', ''vite.config.js'', ''vite.config.mjs'', ''vite.config.mts'',
      ''vite.config.cjs'']"

definition DENO_CONFIG_CANDIDATES :: "string list" where
  "DENO_CONFIG_CANDIDATES = [''deno.json'', ''deno.jsonc'']"

definition parse_json_like :: "pyenv \<Rightarrow> string \<Rightarrow> py_error + json" where
  "parse_json_like env v = json_loads env (strip_json_comments v)"

fun find_first :: "world \<Rightarrow> string list \<Rightarrow> string option" where
  "find_first w [] = None"
| "find_first w (name # candidates) =
     (if path_exists w name then Some name else find_first w candidates)"

text \<open>
  \<open>ensure_object\<close> calls \<open>target.get(key)\<close>, which only a \<open>dict\<close> has: any other JSON
  value raises \<open>AttributeError\<close>. It returns the dictionary stored under \<open>key\<close>; the caller
  mutates that dictionary in place, so the model also returns the target, and the caller
  stores the mutated dictionary back under \<open>key\<close>.
\<close>

definition ensure_object ::
  "json \<Rightarrow> string \<Rightarrow> py_error + ((string \<times> json) list \<times> (string \<times> json) list)" where
  "ensure_object target key =
     (case target of
        JObj d \<Rightarrow>
          (case map_of d key of
             Some (JObj current) \<Rightarrow> Inr (d, current)
           | _ \<Rightarrow> Inr (AList.update key (JObj []) d, []))
      | _ \<Rightarrow> Inl AttributeError)"

text \<open>
  \<open>read_css_ts_specifier\<close>: the body of the \<open>try\<close> returns the versioned specifier, falls
  through (\<open>None\<close>) or raises; \<open>except Exception: pass\<close> turns every error into the
  fall-through.
\<close>

definition read_descriptor :: "pyenv \<Rightarrow> py_error + string" where
  "read_descriptor env =
     (case descriptor env of
        None \<Rightarrow> Inl FileNotFoundError
      | Some Unreadable \<Rightarrow> Inl OSError
      | Some (Content s) \<Rightarrow> Inr s)"

definition specifier_try :: "pyenv \<Rightarrow> py_error + string option" where
  "specifier_try env =
     (case read_descriptor env of
        Inl e \<Rightarrow> Inl e
      | Inr text \<Rightarrow>
          (case json_loads env text of
             Inl e \<Rightarrow> Inl e
           | Inr (JObj parsed) \<Rightarrow>
               (case map_of parsed ''version'' of
                  Some (JStr version) \<Rightarrow>
                    (if version \<noteq> [] then Inr (Some (''npm:@jsr/kt-tools__css-ts@^'' @ version))
                     else Inr None)
                | _ \<Rightarrow> Inr None)
           | Inr _ \<Rightarrow> Inl AttributeError))"

definition read_css_ts_specifier :: "pyenv \<Rightarrow> string" where
  "read_css_ts_specifier env =
     (case specifier_try env of
        Inr (Some specifier) \<Rightarrow> specifier
      | _ \<Rightarrow> ''npm:@jsr/kt-tools__css-ts'')"

section \<open>The Deno import-map mutator\<close>

definition required_imports :: "pyenv \<Rightarrow> (string \<times> string) list" where
  "required_imports env =
     [(''@kt-tools/css-ts'', read_css_ts_specifier env),
      (''@sveltejs/kit'', ''npm:@sveltejs/kit@'' @ readme_version ''kit''),
      (''@sveltejs/vite-plugin-svelte'',
         ''npm:@sveltejs/vite-plugin-svelte@'' @ readme_version ''vite_plugin_svelte''),
      (''svelte'', ''npm:svelte@'' @ readme_version ''svelte''),
      (''vite'', ''npm:vite@'' @ readme_version ''vite'')]"

text \<open>The loop over \<open>required_imports.items()\<close>, on the pair of \<open>imports\<close> and the local flag \<open>changed\<close>, here \<open>chg\<close>.\<close>

fun add_missing ::
  "(string \<times> string) list \<Rightarrow> (string \<times> json) list \<Rightarrow> bool \<Rightarrow> (string \<times> json) list \<times> bool" where
  "add_missing [] imports chg = (imports, chg)"
| "add_missing ((key, v) # rest) imports chg =
     (if map_of imports key = None
      then add_missing rest (AList.update key (JStr v) imports) True
      else add_missing rest imports chg)"

text \<open>
  Lines 162 to 179 of \<open>update_deno_config\<close>: from the configuration with its \<open>imports\<close>
  dictionary to the edited configuration and the flag \<open>changed\<close>. \<open>imports\<close> is the
  dictionary stored in the configuration, so its new entries are entries of
  \<open>config["imports"]\<close>.
\<close>

definition edit_deno_config ::
  "pyenv \<Rightarrow> (string \<times> json) list \<Rightarrow> (string \<times> json) list \<Rightarrow> (string \<times> json) list \<times> bool" where
  "edit_deno_config env config imports =
     (let (imports', chg) = add_missing (required_imports env) imports False;
          config' = AList.update ''imports'' (JObj imports') config
      in if map_of config' ''nodeModulesDir'' \<noteq> Some (JStr ''auto'')
         then (AList.update ''nodeModulesDir'' (JStr ''auto'') config', True)
         else (config', chg))"

definition update_deno_config :: "pyenv \<Rightarrow> world \<Rightarrow> py_error + (UpdateResult \<times> world)" where
  "update_deno_config env w =
     (case find_first w DENO_CONFIG_CANDIDATES of
        None \<Rightarrow>
          Inr (new_result\<lparr>warnings :=
                 [''No deno.json/deno.jsonc found. Skipped Deno import map updates.'']\<rparr>, w)
      | Some deno_path \<Rightarrow>
          (case read_text w deno_path of
             Inl e \<Rightarrow> Inl e
           | Inr original \<Rightarrow>
               (case parse_json_like env original of
                  Inl e \<Rightarrow>
                    Inr (new_result\<lparr>warnings :=
                           [''Failed to parse '' @ deno_path @ ''. Skipped import map updates.'']\<rparr>, w)
                | Inr config \<Rightarrow>
                    (case ensure_object config ''imports'' of
                       Inl e \<Rightarrow> Inl e
                     | Inr (config1, imports) \<Rightarrow>
                         (case edit_deno_config env config1 imports of
                            (config2, True) \<Rightarrow>
                              Inr (\<lparr>changed = True,
                                    notes = [''Updated '' @ deno_path
                                       @ '' with import map entries and nodeModulesDir.''],
                                    warnings =
                                      (if path_suffix deno_path = ''.jsonc''
                                       then [''Rewrote '' @ deno_path @ '' as JSON (comments removed).'']
                                       else [])\<rparr>,
                                   write_text w deno_path (json_dumps env (JObj config2) @ [nl]))
                          | (config2, False) \<Rightarrow> Inr (new_result, w))))))"

section \<open>The package-manifest mutator\<close>

text \<open>
  In \<open>update_package_json\<close> the \<open>read_text\<close> call stands inside the \<open>try\<close>, so an
  unreadable manifest gives the same warning as an unparsable one.
\<close>

definition update_package_json :: "pyenv \<Rightarrow> world \<Rightarrow> py_error + (UpdateResult \<times> world)" where
  "update_package_json env w =
     (if \<not> path_exists w ''package.json''
      then Inr (new_result\<lparr>warnings :=
                  [''No package.json found. Skipped npm dependency updates.'']\<rparr>, w)
      else
        (case (case read_text w ''package.json'' of
                 Inl e \<Rightarrow> Inl e
               | Inr text \<Rightarrow> json_loads env text) of
           Inl e \<Rightarrow>
             Inr (new_result\<lparr>warnings :=
                    [''Failed to parse package.json. Skipped dependency updates.'']\<rparr>, w)
         | Inr pkg \<Rightarrow>
             (case ensure_object pkg ''dependencies'' of
                Inl e \<Rightarrow> Inl e
              | Inr (pkg1, deps) \<Rightarrow>
                  (if map_of deps ''@kt-tools/css-ts'' = None
                   then
                     Inr (\<lparr>changed = True,
                           notes = [''Added @kt-tools/css-ts to dependencies in package.json.''],
                           warnings = []\<rparr>,
                          write_text w ''package.json''
                            (json_dumps env
                               (JObj (AList.update ''dependencies''
                                  (JObj (AList.update ''@kt-tools/css-ts''
                                     (JStr (read_css_ts_specifier env)) deps)) pkg1))
                             @ [nl]))
                   else Inr (new_result, w)))))"

section \<open>The bundler-config mutator\<close>

text \<open>
  \<open>update_vite_config\<close> changes three local variables in three steps: the text
  \<open>updated\<close>, the flag \<open>changed\<close> and the warnings of the result. Each step below is one of
  the three \<open>if\<close> blocks of the function, from the triple before it to the triple after it.
\<close>

type_synonym vite_state = "string \<times> bool \<times> string list"

definition import_step :: "vite_state \<Rightarrow> vite_state" where
  \<open>import_step st =
     (case st of (updated, chg, warns) \<Rightarrow>
        if \<not> contains ''@kt-tools/css-ts'' updated
        then (insert_import updated ''import ct from "@kt-tools/css-ts";'', True, warns)
        else (updated, chg, warns))\<close>

definition plugin_step :: "vite_state \<Rightarrow> vite_state" where
  "plugin_step st =
     (case st of (updated, chg, warns) \<Rightarrow>
        if \<not> contains ''ct.vite'' updated
        then
          (let replaced = re_sub1 sveltekit_rx ''ct.vite(), sveltekit()'' updated in
           if replaced \<noteq> updated then (replaced, True, warns)
           else if re_search plugins_rx updated \<noteq> None
           then (re_sub1 plugins_rx ''plugins: [ct.vite(), '' updated, True, warns)
           else (updated, chg, warns @
                   [''Could not find a plugins array in vite.config. Add ct.vite() manually.'']))
        else (updated, chg, warns))"

definition alias_snippet :: string where
  \<open>alias_snippet =
     ''  resolve: {\<newline>'' @
     ''    alias: {\<newline>'' @
     ''      "@kt-tools/css-ts": "@jsr/kt-tools__css-ts",\<newline>'' @
     ''    },\<newline>'' @
     ''  },\<newline>''\<close>

definition alias_repl :: string where
  \<open>alias_repl = ''alias: {\<newline>      "@kt-tools/css-ts": "@jsr/kt-tools__css-ts",''\<close>

definition resolve_repl :: string where
  \<open>resolve_repl =
     ''resolve: {\<newline>    alias: {\<newline>      "@kt-tools/css-ts": "@jsr/kt-tools__css-ts",\<newline>    },''\<close>

definition alias_step :: "bool \<Rightarrow> vite_state \<Rightarrow> vite_state" where
  "alias_step deno_mode st =
     (case st of (updated, chg, warns) \<Rightarrow>
        if deno_mode \<and> \<not> contains ''@jsr/kt-tools__css-ts'' updated
        then
          (if re_search resolve_rx updated \<noteq> None
           then
             (if re_search alias_rx updated \<noteq> None
              then (re_sub1 alias_rx alias_repl updated, True, warns)
              else (re_sub1 resolve_rx resolve_repl updated, True, warns))
           else
             (case re_search define_config_rx updated of
                Some (pre, m, post) \<Rightarrow>
                  (pre @ m @ [nl] @ alias_snippet @ post, True, warns)
              | None \<Rightarrow>
                  (updated, chg, warns @
                     [''Could not insert Vite resolve.alias entry. Add it manually.''])))
        else (updated, chg, warns))"

definition update_vite_config :: "world \<Rightarrow> bool \<Rightarrow> py_error + (UpdateResult \<times> world)" where
  "update_vite_config w deno_mode =
     (case find_first w VITE_CONFIG_CANDIDATES of
        None \<Rightarrow>
          Inr (new_result\<lparr>warnings :=
                 [''No vite.config file found. Skipped Vite plugin updates.'']\<rparr>, w)
      | Some vite_path \<Rightarrow>
          (case read_text w vite_path of
             Inl e \<Rightarrow> Inl e
           | Inr original \<Rightarrow>
               (case alias_step deno_mode (plugin_step (import_step (original, False, []))) of
                  (updated, True, warns) \<Rightarrow>
                    Inr (\<lparr>changed = True,
                          notes = [''Updated '' @ vite_path
                             @ '' with CSS-TS Vite plugin configuration.''],
                          warnings = warns\<rparr>,
                         write_text w vite_path updated)
                | (updated, False, warns) \<Rightarrow>
                    Inr (new_result\<lparr>warnings := warns\<rparr>, w))))"

section \<open>The installer\<close>

text \<open>
  The installer probes the project root and runs one external command. Its model returns,
  with the result, the trace of what it did: each \<open>exists()\<close> call and each command line
  handed to \<open>subprocess.run\<close>.
\<close>

datatype event = Probe string | Run "string list"

datatype package_manager = Pnpm | Yarn | Bun | Npm

definition detect_package_manager :: "world \<Rightarrow> package_manager \<times> event list" where
  "detect_package_manager w =
     (if path_exists w ''pnpm-lock.yaml'' then (Pnpm, [Probe ''pnpm-lock.yaml''])
      else if path_exists w ''yarn.lock''
      then (Yarn, [Probe ''pnpm-lock.yaml'', Probe ''yarn.lock''])
      else if path_exists w ''bun.lockb''
      then (Bun, [Probe ''pnpm-lock.yaml'', Probe ''yarn.lock'', Probe ''bun.lockb''])
      else (Npm, [Probe ''pnpm-lock.yaml'', Probe ''yarn.lock'', Probe ''bun.lockb'']))"

definition run_command :: "pyenv \<Rightarrow> string list \<Rightarrow> bool \<times> event list" where
  "run_command env command = (subprocess_ok env command, [Run command])"

definition run_package_install :: "pyenv \<Rightarrow> world \<Rightarrow> bool \<times> event list" where
  "run_package_install env w =
     (if \<not> path_exists w ''package.json'' then (False, [Probe ''package.json''])
      else
        (case detect_package_manager w of
           (pm, probes) \<Rightarrow>
             (let cmd =
                (case pm of
                   Pnpm \<Rightarrow> [''npx'', ''--yes'', ''jsr'', ''add'', ''--pnpm'', ''@kt-tools/css-ts'']
                 | Yarn \<Rightarrow> [''npx'', ''--yes'', ''jsr'', ''add'', ''--yarn'', ''@kt-tools/css-ts'']
                 | Bun \<Rightarrow> [''npx'', ''--yes'', ''jsr'', ''add'', ''--bun'', ''@kt-tools/css-ts'']
                 | Npm \<Rightarrow> [''npx'', ''--yes'', ''jsr'', ''add'', ''--npm'', ''@kt-tools/css-ts''])
              in (case run_command env cmd of
                    (ok, evs) \<Rightarrow> (ok, [Probe ''package.json''] @ probes @ evs)))))"

section \<open>Sample runs\<close>

text \<open>
  A small project and a small environment on which the theorems below are instantiated.
  The project has a Deno configuration with a name and one import pinned by hand, a package
  manifest with a name and one dependency, and a bundler configuration as SvelteKit
  generates it. The sample \<open>json.loads\<close> reads the texts below as Python does and rejects
  every other text; the sample \<open>json.dumps\<close> writes the two edited configurations as Python
  does with \<open>indent=2\<close>.
\<close>

definition sample_deno_text :: string where
  \<open>sample_deno_text =
     ''{\<newline>'' @
     ''  "name": "demo",\<newline>'' @
     ''  "imports": {\<newline>'' @
     ''    "svelte": "npm:svelte@^4.0.0"\<newline>'' @
     ''  }\<newline>'' @
     ''}\<newline>''\<close>

definition sample_deno_config :: "(string \<times> json) list" where
  "sample_deno_config =
      [(''name'', JStr ''demo''),
       (''imports'', JObj
        [(''svelte'', JStr ''npm:svelte@^4.0.0'')])]"

definition sample_deno_done :: "(string \<times> json) list" where
  "sample_deno_done =
      [(''name'', JStr ''demo''),
       (''imports'', JObj
        [(''svelte'', JStr ''npm:svelte@^4.0.0''),
         (''@kt-tools/css-ts'', JStr ''npm:@jsr/kt-tools__css-ts''),
         (''@sveltejs/kit'', JStr ''npm:@sveltejs/kit@^2.50.2''),
         (''@sveltejs/vite-plugin-svelte'', JStr ''npm:@sveltejs/vite-plugin-svelte@^6.2.4''),
         (''vite'', JStr ''npm:vite@^7.3.1'')]),
       (''nodeModulesDir'', JStr ''auto'')]"

definition sample_deno_done_text :: string where
  \<open>sample_deno_done_text =
     ''{\<newline>'' @
     ''  "name": "demo",\<newline>'' @
     ''  "imports": {\<newline>'' @
     ''    "svelte": "npm:svelte@^4.0.0",\<newline>'' @
     ''    "@kt-tools/css-ts": "npm:@jsr/kt-tools__css-ts",\<newline>'' @
     ''    "@sveltejs/kit": "npm:@sveltejs/kit@^2.50.2",\<newline>'' @
     ''    "@sveltejs/vite-plugin-svelte": "npm:@sveltejs/vite-plugin-svelte@^6.2.4",\<newline>'' @
     ''    "vite": "npm:vite@^7.3.1"\<newline>'' @
     ''  },\<newline>'' @
     ''  "nodeModulesDir": "auto"\<newline>'' @
     ''}''\<close>

definition sample_pkg_text :: string where
  \<open>sample_pkg_text =
     ''{\<newline>'' @
     ''  "name": "demo",\<newline>'' @
     ''  "dependencies": {\<newline>'' @
     ''    "svelte": "^5.0.0"\<newline>'' @
     ''  }\<newline>'' @
     ''}\<newline>''\<close>

definition sample_pkg :: "(string \<times> json) list" where
  "sample_pkg =
      [(''name'', JStr ''demo''),
       (''dependencies'', JObj
        [(''svelte'', JStr ''^5.0.0'')])]"

definition sample_pkg_done :: "(string \<times> json) list" where
  "sample_pkg_done =
      [(''name'', JStr ''demo''),
       (''dependencies'', JObj
        [(''svelte'', JStr ''^5.0.0''),
         (''@kt-tools/css-ts'', JStr ''npm:@jsr/kt-tools__css-ts'')])]"

definition sample_pkg_done_text :: string where
  \<open>sample_pkg_done_text =
     ''{\<newline>'' @
     ''  "name": "demo",\<newline>'' @
     ''  "dependencies": {\<newline>'' @
     ''    "svelte": "^5.0.0",\<newline>'' @
     ''    "@kt-tools/css-ts": "npm:@jsr/kt-tools__css-ts"\<newline>'' @
     ''  }\<newline>'' @
     ''}''\<close>

definition sample_vite_text :: string where
  \<open>sample_vite_text =
     ''import { sveltekit } from "@sveltejs/kit/vite";\<newline>'' @
     ''import { defineConfig } from "vite";\<newline>'' @
     ''\<newline>'' @
     ''export default defineConfig({\<newline>'' @
     ''  plugins: [sveltekit()]\<newline>'' @
     ''});\<newline>''\<close>

definition sample_vite_done_text :: string where
  \<open>sample_vite_done_text =
     ''import { sveltekit } from "@sveltejs/kit/vite";\<newline>'' @
     ''import { defineConfig } from "vite";\<newline>'' @
     ''\<newline>'' @
     ''import ct from "@kt-tools/css-ts";\<newline>'' @
     ''export default defineConfig({\<newline>'' @
     ''  plugins: [ct.vite(), sveltekit()]\<newline>'' @
     ''});\<newline>''\<close>

definition sample_loads :: "string \<Rightarrow> py_error + json" where
  \<open>sample_loads s =
     (if s = ''{}'' then Inr (JObj [])
      else if s = ''[]'' then Inr (JArr [])
      else if s = ''{"version": "1.2.3"}'' then Inr (JObj [(''version'', JStr ''1.2.3'')])
      else if s = sample_deno_text then Inr (JObj sample_deno_config)
      else if s = sample_deno_done_text @ [nl] then Inr (JObj sample_deno_done)
      else if s = sample_pkg_text then Inr (JObj sample_pkg)
      else if s = sample_pkg_done_text @ [nl] then Inr (JObj sample_pkg_done)
      else Inl JSONDecodeError)\<close>

definition sample_dumps :: "json \<Rightarrow> string" where
  "sample_dumps j =
     (if j = JObj sample_deno_done then sample_deno_done_text
      else if j = JObj sample_pkg_done then sample_pkg_done_text
      else ''null'')"

definition sample_env :: pyenv where
  "sample_env =
     \<lparr>json_loads = sample_loads, json_dumps = sample_dumps, descriptor = None,
      subprocess_ok = (\<lambda>command. True)\<rparr>"

definition sample_world :: "(string \<times> string) list \<Rightarrow> world" where
  "sample_world fs = \<lparr>files = map_option Content \<circ> map_of fs, writes = []\<rparr>"

definition sample_project :: world where
  "sample_project =
     sample_world
       [(''deno.json'', sample_deno_text), (''package.json'', sample_pkg_text),
        (''vite.config.ts'', sample_vite_text)]"

text \<open>The same project after the tool has been applied to each of its three files.\<close>

definition sample_project_done :: world where
  "sample_project_done =
     sample_world
       [(''deno.json'', sample_deno_done_text @ [nl]),
        (''package.json'', sample_pkg_done_text @ [nl]),
        (''vite.config.ts'', sample_vite_done_text)]"

definition released_env :: pyenv where
  \<open>released_env = sample_env\<lparr>descriptor := Some (Content ''{"version": "1.2.3"}'')\<rparr>\<close>

section \<open>Predicates of the statements\<close>

text \<open>
  The tool's version descriptor gives a version \<open>v\<close>: it is a readable file, it parses to a
  JSON object, and the object holds a non-empty string \<open>v\<close> under \<open>version\<close>.
\<close>

definition versioned :: "pyenv \<Rightarrow> string \<Rightarrow> bool" where
  "versioned env v =
     (\<exists>text parsed. descriptor env = Some (Content text) \<and>
        json_loads env text = Inr (JObj parsed) \<and>
        map_of parsed ''version'' = Some (JStr v) \<and> v \<noteq> [])"

text \<open>
  The value that the parsed configuration holds for the key \<open>k\<close> of its \<open>imports\<close>
  dictionary; \<open>None\<close> when \<open>imports\<close> is missing or not a dictionary, or has no such key.
\<close>

definition existing_import :: "(string \<times> json) list \<Rightarrow> string \<Rightarrow> json option" where
  "existing_import config k =
     (case map_of config ''imports'' of Some (JObj old) \<Rightarrow> map_of old k | _ \<Rightarrow> None)"

section \<open>What the patterns match\<close>

text \<open>
  The language of a pattern without anchors, stated without the matcher: \<open>matches rs m\<close>
  says that the whole text \<open>m\<close> is matched by \<open>rs\<close>.
\<close>

fun matches :: "rx list \<Rightarrow> string \<Rightarrow> bool" where
  "matches [] m = (m = [])"
| "matches (Chr c # rs) m = (\<exists>m'. m = c # m' \<and> matches rs m')"
| "matches (Star p # rs) m = (\<exists>w m'. m = w @ m' \<and> list_all p w \<and> matches rs m')"
| "matches (Opt c # rs) m = (matches rs m \<or> (\<exists>m'. m = c # m' \<and> matches rs m'))"
| "matches (Bol # rs) m = False"
| "matches (Eol # rs) m = False"

text \<open>
  A pattern of literal characters and stars in which every star is followed by a literal
  character outside the star's class; the five patterns of plugin and alias registration
  are of this kind.
\<close>

fun simple :: "rx list \<Rightarrow> bool" where
  "simple [] = True"
| "simple (Chr c # rs) = simple rs"
| "simple (Star p # Chr c # rs) = (\<not> p c \<and> simple rs)"
| "simple rs = False"

definition blank :: "string \<Rightarrow> bool" where
  "blank w = list_all is_space w"

text \<open>A zero-argument call \<open>sveltekit()\<close>, with any white space around the parenthesis.\<close>

definition is_sveltekit_call :: "string \<Rightarrow> bool" where
  "is_sveltekit_call m =
     (\<exists>w1 w2. blank w1 \<and> blank w2 \<and> m = ''sveltekit'' @ w1 @ ''('' @ w2 @ '')'')"

text \<open>The opening of a \<open>plugins:\<close> array, with any white space around the colon.\<close>

definition is_plugins_open :: "string \<Rightarrow> bool" where
  "is_plugins_open m =
     (\<exists>w1 w2. blank w1 \<and> blank w2 \<and> m = ''plugins'' @ w1 @ '':'' @ w2 @ ''['')"

text \<open>
  \<open>first_at P t pre m post\<close>: the text \<open>t\<close> is \<open>pre\<close>, \<open>m\<close>, \<open>post\<close>, where \<open>m\<close> satisfies \<open>P\<close>
  and no part of \<open>t\<close> that satisfies \<open>P\<close> starts further left. \<open>nowhere P t\<close>: no part of
  \<open>t\<close> satisfies \<open>P\<close>.
\<close>

definition first_at :: "(string \<Rightarrow> bool) \<Rightarrow> string \<Rightarrow> string \<Rightarrow> string \<Rightarrow> string \<Rightarrow> bool" where
  "first_at P t pre m post =
     (t = pre @ m @ post \<and> P m \<and>
      (\<forall>pre' m' post'. t = pre' @ m' @ post' \<and> P m' \<longrightarrow> length pre \<le> length pre'))"

definition nowhere :: "(string \<Rightarrow> bool) \<Rightarrow> string \<Rightarrow> bool" where
  "nowhere P t = (\<forall>pre m post. t = pre @ m @ post \<longrightarrow> \<not> P m)"


text \<open>
  What the import pattern matches. \<open>line_start pre\<close>: the position after \<open>pre\<close> is the start
  of a line. \<open>import_match m post\<close>: the text \<open>m\<close>, followed by \<open>post\<close>, is the keyword
  \<open>import\<close>, then characters other than a semicolon and a newline, then one semicolon or
  none, then white space that runs to the end of the text or ends before the last line
  break of the white space that follows the statement: the text after that line break has
  white space without a newline and then a character that is not white space.
  \<open>import_at t pre m post\<close>: the text \<open>t\<close> is \<open>pre\<close>, \<open>m\<close>, \<open>post\<close>, with such an \<open>m\<close> at the
  start of a line.
\<close>

definition line_start :: "string \<Rightarrow> bool" where
  "line_start pre = (pre = [] \<or> last pre = nl)"

definition before_text :: "string \<Rightarrow> bool" where
  "before_text post =
     (post = [] \<or>
      (\<exists>u c r. post = nl # u @ c # r \<and> blank u \<and> nl \<notin> set u \<and> \<not> is_space c))"

definition import_match :: "string \<Rightarrow> string \<Rightarrow> bool" where
  "import_match m post =
     (\<exists>body semi ws.
        m = ''import'' @ body @ semi @ ws \<and>
        list_all (\<lambda>c. c \<noteq> CHR '';'' \<and> c \<noteq> nl) body \<and>
        (semi = [] \<or> semi = '';'') \<and> blank ws \<and> before_text post)"

definition import_at :: "string \<Rightarrow> string \<Rightarrow> string \<Rightarrow> string \<Rightarrow> bool" where
  "import_at t pre m post = (t = pre @ m @ post \<and> line_start pre \<and> import_match m post)"

text \<open>
  \<open>last_import_at t pre m post\<close>: of the import matches of \<open>t\<close>, the one that starts furthest
  right. \<open>no_import t\<close>: the text has no import match.
\<close>

definition last_import_at :: "string \<Rightarrow> string \<Rightarrow> string \<Rightarrow> string \<Rightarrow> bool" where
  "last_import_at t pre m post =
     (import_at t pre m post \<and>
      (\<forall>pre' m' post'. import_at t pre' m' post' \<longrightarrow> length pre' \<le> length pre))"

definition no_import :: "string \<Rightarrow> bool" where
  "no_import t = (\<forall>pre m post. \<not> import_at t pre m post)"


section \<open>The reader refines the four-state scanner\<close>

lemma drop_one: "i < length v \<Longrightarrow> drop i v = v ! i # drop (Suc i) v"
  by (simp add: Cons_nth_drop_Suc)

lemma nxt_last: "Suc i = length v \<Longrightarrow> nxt v i = []"
  by (simp add: nxt_def)

lemma nxt_more: "Suc i < length v \<Longrightarrow> nxt v i = [v ! Suc i]"
  by (simp add: nxt_def)

lemma strip_loop_end: "length v \<le> i \<Longrightarrow> strip_loop v i s l m out = out"
  by (subst strip_loop.simps) simp

lemma step_last:
  assumes "Suc i = length v" "exclusive s l m"
  shows "strip_loop v i s l m out = out @ scan (flags_state s l m) [v ! i]"
proof -
  have n: "nxt v i = []" using assms by (simp add: nxt_def)
  have e: "\<And>s l m out. strip_loop v (Suc i) s l m out = out"
    using assms by (simp add: strip_loop_end)
  have e2: "\<And>s l m out. strip_loop v (Suc (Suc i)) s l m out = out"
    using assms by (simp add: strip_loop_end)
  have lt: "i < length v" using assms by simp
  show ?thesis
    apply (subst strip_loop.simps)
    apply (simp only: lt if_True n e e2 Suc_eq_plus1[symmetric] add_2_eq_Suc')
    using assms(2)
    apply (cases s; cases l; cases m; simp add: flags_state_def exclusive_def)
    done
qed


lemma strip_loop_scan:
  "i \<le> length v \<Longrightarrow> exclusive s l m \<Longrightarrow>
   strip_loop v i s l m out = out @ scan (flags_state s l m) (drop i v)"
proof (induction v i s l m out rule: strip_loop.induct)
  case (1 v i s l m out)
  show ?case
  proof (cases "i < length v")
    case False
    with "1.prems" show ?thesis by (simp add: strip_loop_end)
  next
    case True
    note d = drop_one[OF True]
    show ?thesis
    proof (cases "Suc i < length v")
      case False
      with True have len: "Suc i = length v" by simp
      then have dn: "drop (Suc i) v = []" by simp
      show ?thesis using step_last[OF len "1.prems"(2)] by (simp add: d dn)
    next
      case len: True
      note d2 = drop_one[OF len]
      have n: "nxt v i = [v ! Suc i]" by (rule nxt_more[OF len])
      have le1: "i + 1 \<le> length v" and le2: "i + 2 \<le> length v" using len by simp_all
      have dd: "drop i v = v ! i # v ! Suc i # drop (Suc (Suc i)) v"
        and dd1: "drop (i + 1) v = v ! Suc i # drop (Suc (Suc i)) v"
        and dd2: "drop (i + 2) v = drop (Suc (Suc i)) v"
        using d d2 by simp_all
      note IH = "1.IH"[OF True]
      consider (single) "l" "\<not> s" "\<not> m" | (multi) "m" "\<not> s" "\<not> l"
        | (str) "s" "\<not> l" "\<not> m" | (plain) "\<not> s" "\<not> l" "\<not> m"
        using "1.prems"(2) by (auto simp: exclusive_def)
      then show ?thesis
      proof cases
        case single
        show ?thesis
          apply (subst strip_loop.simps)
          using single IH(1,2) le1
          apply (simp add: True n dd d2 flags_state_def exclusive_def)
          done
      next
        case multi
        show ?thesis
          apply (subst strip_loop.simps)
          using multi IH(3,4) le1 le2
          apply (simp add: True n dd d2 flags_state_def exclusive_def)
          done
      next
        case str
        show ?thesis
          apply (subst strip_loop.simps)
          using str IH(5,6,7) le1 le2
          apply (simp add: True n dd d2 flags_state_def exclusive_def)
          done
      next
        case plain
        show ?thesis
          apply (subst strip_loop.simps)
          using plain IH(8,9,10,11) le1 le2
          apply (simp add: True n dd d2 flags_state_def exclusive_def)
          done
      qed
    qed
  qed
qed

text \<open>
  Claim C3. For every input text, the index loop of \<open>strip_json_comments\<close> with its three
  flags computes what the four-state scanner computes from the plain-code state: a double
  quote outside a comment toggles the string state, \<open>//\<close> starts a line comment that is
  dropped up to its newline, which is kept, \<open>/*\<close> starts a block comment that gives no
  output up to and including \<open>*/\<close>, a backslash in a string is copied with the character
  after it as a unit, and every other character is copied as it is.
\<close>

theorem strip_json_comments_four_state_scanner:
  "strip_json_comments v = scan PlainCode v"
  by (simp add: strip_json_comments_def strip_loop_scan exclusive_def flags_state_def)

section \<open>The JSON mutators\<close>

lemma add_missing_flag_True: "snd (add_missing req imps True) = True"
  by (induction req imps "True" rule: add_missing.induct) auto

lemma add_missing_unchanged:
  "add_missing req imps False = (imps', False) \<Longrightarrow> imps' = imps"
proof (induction req arbitrary: imps)
  case Nil
  then show ?case by simp
next
  case (Cons a req)
  obtain key v where a: "a = (key, v)" by (cases a)
  show ?case
  proof (cases "map_of imps key = None")
    case True
    with Cons.prems a have "snd (add_missing req (AList.update key (JStr v) imps) True) = False"
      by simp
    then show ?thesis by (simp add: add_missing_flag_True)
  next
    case False
    with Cons a show ?thesis by simp
  qed
qed

lemma add_missing_lookup:
  "map_of (fst (add_missing req imps chg)) k =
     (case map_of imps k of
        Some x \<Rightarrow> Some x
      | None \<Rightarrow> map_option JStr (map_of req k))"
proof (induction req imps chg rule: add_missing.induct)
  case (1 imps chg)
  then show ?case by (simp split: option.splits)
next
  case (2 key v rest imps chg)
  then show ?case
    by (auto simp: update_conv' split: option.splits)
qed

lemma add_missing_flag:
  "snd (add_missing req imps False) \<longleftrightarrow> (\<exists>k \<in> fst ` set req. map_of imps k = None)"
proof (induction req arbitrary: imps)
  case Nil
  then show ?case by simp
next
  case (Cons a req)
  obtain key v where a: "a = (key, v)" by (cases a)
  show ?case using Cons a by (auto simp: add_missing_flag_True)
qed

lemma required_keys:
  "fst ` set (required_imports env) =
     {''@kt-tools/css-ts'', ''@sveltejs/kit'', ''@sveltejs/vite-plugin-svelte'', ''svelte'',
      ''vite''}"
  by (auto simp: required_imports_def)

lemma ensure_object_cases:
  "ensure_object (JObj d) key = Inr (d1, cur) \<Longrightarrow>
     (map_of d key = Some (JObj cur) \<and> d1 = d) \<or>
     ((\<forall>c. map_of d key \<noteq> Some (JObj c)) \<and> cur = [] \<and> d1 = AList.update key (JObj []) d)"
  by (auto simp: ensure_object_def split: option.splits json.splits)

lemma ensure_object_total: "\<exists>d1 cur. ensure_object (JObj d) key = Inr (d1, cur)"
  by (auto simp: ensure_object_def split: option.splits json.splits)

lemma ensure_object_stored:
  "ensure_object (JObj d) key = Inr (d1, cur) \<Longrightarrow> map_of d1 key = Some (JObj cur)"
  by (auto simp: ensure_object_def update_conv' split: option.splits json.splits)

lemma ensure_object_frame:
  "ensure_object (JObj d) key = Inr (d1, cur) \<Longrightarrow> k \<noteq> key \<Longrightarrow> map_of d1 k = map_of d k"
  by (auto simp: ensure_object_def update_conv' split: option.splits json.splits)

lemma edit_deno_config_imports:
  "edit_deno_config env config imps = (config', chg) \<Longrightarrow>
   map_of config' ''imports'' = Some (JObj (fst (add_missing (required_imports env) imps False)))"
  by (auto simp: edit_deno_config_def Let_def update_conv' split: prod.splits if_splits)

lemma edit_deno_config_auto:
  "edit_deno_config env config imps = (config', chg) \<Longrightarrow>
   map_of config' ''nodeModulesDir'' = Some (JStr ''auto'')"
  by (auto simp: edit_deno_config_def Let_def update_conv' split: prod.splits if_splits)

lemma edit_deno_config_frame:
  "edit_deno_config env config imps = (config', chg) \<Longrightarrow>
   k \<noteq> ''imports'' \<Longrightarrow> k \<noteq> ''nodeModulesDir'' \<Longrightarrow> map_of config' k = map_of config k"
  by (auto simp: edit_deno_config_def Let_def update_conv' split: prod.splits if_splits)

lemma edit_deno_config_unchanged:
  assumes "edit_deno_config env config imps = (config', False)"
    and "map_of config ''imports'' = Some (JObj imps)"
  shows "config' = config"
proof -
  obtain imps' c where am: "add_missing (required_imports env) imps False = (imps', c)"
    by (cases "add_missing (required_imports env) imps False")
  from assms(1) am have c: "c = False"
    and cfg: "config' = AList.update ''imports'' (JObj imps') config"
    by (auto simp: edit_deno_config_def Let_def split: if_splits)
  from am c have "imps' = imps" by (simp add: add_missing_unchanged)
  with cfg assms(2) show ?thesis by (simp add: update_triv)
qed

lemma edit_deno_config_changed:
  assumes "edit_deno_config env config1 imps = (config', True)"
    and "map_of config ''imports'' = Some (JObj imps) \<or>
         (\<forall>c. map_of config ''imports'' \<noteq> Some (JObj c))"
    and "map_of config1 ''nodeModulesDir'' = map_of config ''nodeModulesDir''"
  shows "config' \<noteq> config"
proof
  assume eq: "config' = config"
  obtain imps' c where am: "add_missing (required_imports env) imps False = (imps', c)"
    by (cases "add_missing (required_imports env) imps False")
  have imp': "map_of config' ''imports'' = Some (JObj imps')"
    using edit_deno_config_imports[OF assms(1)] am by simp
  have au: "map_of config' ''nodeModulesDir'' = Some (JStr ''auto'')"
    by (rule edit_deno_config_auto[OF assms(1)])
  from assms(2) imp' eq have same: "imps' = imps" by auto
  from assms(1) am have "c = True \<or>
      map_of (AList.update ''imports'' (JObj imps') config1) ''nodeModulesDir'' \<noteq> Some (JStr ''auto'')"
    by (auto simp: edit_deno_config_def Let_def split: if_splits)
  then show False
  proof
    assume "c = True"
    with am have "snd (add_missing (required_imports env) imps False)" by simp
    then obtain k where k: "k \<in> fst ` set (required_imports env)" "map_of imps k = None"
      by (auto simp: add_missing_flag)
    have "map_of imps' k \<noteq> None"
      using add_missing_lookup[of "required_imports env" imps False k] am k
      by (auto simp: map_of_eq_None_iff split: option.splits)
    with same k show False by simp
  next
    assume n: "map_of (AList.update ''imports'' (JObj imps') config1) ''nodeModulesDir'' \<noteq> Some (JStr ''auto'')"
    from au eq assms(3) have "map_of config1 ''nodeModulesDir'' = Some (JStr ''auto'')"
      by simp
    with n show False by (simp add: update_conv')
  qed
qed

lemma update_deno_config_run:
  assumes "find_first w DENO_CONFIG_CANDIDATES = Some p"
    and "read_text w p = Inr original"
    and "parse_json_like env original = Inr (JObj config)"
    and "ensure_object (JObj config) ''imports'' = Inr (config1, imps)"
    and "edit_deno_config env config1 imps = (config2, chg)"
  shows "update_deno_config env w =
     (if chg
      then Inr (\<lparr>changed = True,
                 notes = [''Updated '' @ p @ '' with import map entries and nodeModulesDir.''],
                 warnings = (if path_suffix p = ''.jsonc''
                             then [''Rewrote '' @ p @ '' as JSON (comments removed).'']
                             else [])\<rparr>,
                write_text w p (json_dumps env (JObj config2) @ [nl]))
      else Inr (new_result, w))"
  using assms by (simp add: update_deno_config_def)

lemma deno_edit_summary:
  assumes eo: "ensure_object (JObj config) ''imports'' = Inr (config1, imps)"
    and ed: "edit_deno_config env config1 imps = (config2, chg)"
  shows "chg = (config2 \<noteq> config)"
    and "\<exists>imps'. map_of config2 ''imports'' = Some (JObj imps') \<and>
           (\<forall>k \<in> {''@kt-tools/css-ts'', ''@sveltejs/kit'', ''@sveltejs/vite-plugin-svelte'',
                    ''svelte'', ''vite''}. map_of imps' k \<noteq> None) \<and>
           (\<forall>old k v. map_of config ''imports'' = Some (JObj old) \<longrightarrow> map_of old k = Some v
               \<longrightarrow> map_of imps' k = Some v)"
    and "map_of config2 ''nodeModulesDir'' = Some (JStr ''auto'')"
    and "\<forall>k. k \<noteq> ''imports'' \<and> k \<noteq> ''nodeModulesDir'' \<longrightarrow> map_of config2 k = map_of config k"
proof -
  note cases = ensure_object_cases[OF eo]
  have fr1: "map_of config1 ''nodeModulesDir'' = map_of config ''nodeModulesDir''"
    using ensure_object_frame[OF eo, of "''nodeModulesDir''"] by simp
  show "chg = (config2 \<noteq> config)"
  proof (cases chg)
    case True
    have "map_of config ''imports'' = Some (JObj imps) \<or>
         (\<forall>c. map_of config ''imports'' \<noteq> Some (JObj c))"
      using cases by auto
    moreover from ed True have "edit_deno_config env config1 imps = (config2, True)" by simp
    ultimately have "config2 \<noteq> config"
      using edit_deno_config_changed fr1 by blast
    with True show ?thesis by simp
  next
    case False
    have "snd (add_missing (required_imports env) imps False) = False"
      using ed False by (auto simp: edit_deno_config_def Let_def split: prod.splits if_splits)
    then have all: "\<forall>k \<in> fst ` set (required_imports env). map_of imps k \<noteq> None"
      by (simp add: add_missing_flag)
    have "imps \<noteq> []"
    proof
      assume "imps = []"
      moreover have "''vite'' \<in> fst ` set (required_imports env)"
        by (simp add: required_keys)
      ultimately show False using all by auto
    qed
    with cases have "map_of config ''imports'' = Some (JObj imps)" "config1 = config" by auto
    moreover from ed False have "edit_deno_config env config1 imps = (config2, False)" by simp
    ultimately have "config2 = config"
      using edit_deno_config_unchanged by blast
    with False show ?thesis by simp
  qed
  let ?imps' = "fst (add_missing (required_imports env) imps False)"
  have i: "map_of config2 ''imports'' = Some (JObj ?imps')"
    by (rule edit_deno_config_imports[OF ed])
  have five: "\<forall>k \<in> fst ` set (required_imports env). map_of ?imps' k \<noteq> None"
  proof
    fix k assume "k \<in> fst ` set (required_imports env)"
    then have "map_of (required_imports env) k \<noteq> None"
      by (simp add: map_of_eq_None_iff)
    then show "map_of ?imps' k \<noteq> None"
      by (auto simp: add_missing_lookup split: option.splits)
  qed
  have keep: "\<forall>old k v. map_of config ''imports'' = Some (JObj old) \<longrightarrow> map_of old k = Some v
               \<longrightarrow> map_of ?imps' k = Some v"
    using cases by (auto simp: add_missing_lookup)
  show "\<exists>imps'. map_of config2 ''imports'' = Some (JObj imps') \<and>
           (\<forall>k \<in> {''@kt-tools/css-ts'', ''@sveltejs/kit'', ''@sveltejs/vite-plugin-svelte'',
                    ''svelte'', ''vite''}. map_of imps' k \<noteq> None) \<and>
           (\<forall>old k v. map_of config ''imports'' = Some (JObj old) \<longrightarrow> map_of old k = Some v
               \<longrightarrow> map_of imps' k = Some v)"
    using i five keep unfolding required_keys by blast
  show "map_of config2 ''nodeModulesDir'' = Some (JStr ''auto'')"
    by (rule edit_deno_config_auto[OF ed])
  show "\<forall>k. k \<noteq> ''imports'' \<and> k \<noteq> ''nodeModulesDir'' \<longrightarrow> map_of config2 k = map_of config k"
    using edit_deno_config_frame[OF ed] ensure_object_frame[OF eo] by auto
qed

lemma required_imports_table:
  "map_of (required_imports env) =
     map_of [(''@kt-tools/css-ts'', read_css_ts_specifier env),
             (''@sveltejs/kit'', ''npm:@sveltejs/kit@^2.50.2''),
             (''@sveltejs/vite-plugin-svelte'', ''npm:@sveltejs/vite-plugin-svelte@^6.2.4''),
             (''svelte'', ''npm:svelte@^5.49.2''),
             (''vite'', ''npm:vite@^7.3.1'')]"
  by (simp add: required_imports_def readme_version_def README_VERSIONS_def)

lemma ensure_object_existing:
  "ensure_object (JObj config) ''imports'' = Inr (config1, imps) \<Longrightarrow>
   map_of imps k = existing_import config k"
  by (auto simp: ensure_object_def existing_import_def split: option.splits json.splits)


lemma update_deno_config_invariant:
  assumes "update_deno_config env w = Inr (r, w')"
  shows "if changed r
         then (\<exists>p config'.
                 find_first w DENO_CONFIG_CANDIDATES = Some p \<and>
                 w' = write_text w p (json_dumps env (JObj config') @ [nl]) \<and>
                 notes r = [''Updated '' @ p @ '' with import map entries and nodeModulesDir.''])
         else w' = w"
  using assms
  by (auto simp: update_deno_config_def new_result_def
      split: option.splits sum.splits prod.splits bool.splits)

lemma update_package_json_invariant:
  assumes "update_package_json env w = Inr (r, w')"
  shows "if changed r
         then (\<exists>pkg'.
                 path_exists w ''package.json'' \<and>
                 w' = write_text w ''package.json'' (json_dumps env (JObj pkg') @ [nl]) \<and>
                 notes r = [''Added @kt-tools/css-ts to dependencies in package.json.''])
         else w' = w"
  using assms
  by (auto simp: update_package_json_def new_result_def
      split: sum.splits prod.splits if_splits)

lemma update_vite_config_invariant:
  assumes "update_vite_config w deno_mode = Inr (r, w')"
  shows "if changed r
         then (\<exists>p original.
                 find_first w VITE_CONFIG_CANDIDATES = Some p \<and>
                 read_text w p = Inr original \<and>
                 w' = write_text w p
                        (fst (alias_step deno_mode
                                (plugin_step (import_step (original, False, []))))) \<and>
                 notes r = [''Updated '' @ p @ '' with CSS-TS Vite plugin configuration.''])
         else w' = w"
  using assms
  by (auto simp: update_vite_config_def new_result_def
      split: option.splits sum.splits prod.splits bool.splits)

lemma update_package_json_run:
  assumes "read_text w ''package.json'' = Inr text"
    and "json_loads env text = Inr (JObj pkg)"
    and "ensure_object (JObj pkg) ''dependencies'' = Inr (pkg1, deps)"
  shows "update_package_json env w =
     (if map_of deps ''@kt-tools/css-ts'' = None
      then Inr (\<lparr>changed = True,
                 notes = [''Added @kt-tools/css-ts to dependencies in package.json.''],
                 warnings = []\<rparr>,
                write_text w ''package.json''
                  (json_dumps env
                     (JObj (AList.update ''dependencies''
                        (JObj (AList.update ''@kt-tools/css-ts''
                           (JStr (read_css_ts_specifier env)) deps)) pkg1))
                   @ [nl]))
      else Inr (new_result, w))"
proof -
  have "path_exists w ''package.json''"
    using assms(1) by (auto simp: path_exists_def read_text_def split: option.splits)
  with assms show ?thesis by (simp add: update_package_json_def)
qed

lemma deno_frame:
  assumes "find_first w DENO_CONFIG_CANDIDATES = Some p"
    and "read_text w p = Inr original"
    and "parse_json_like env original = Inr (JObj config)"
  shows "\<exists>r config'.
      update_deno_config env w =
        Inr (r, if changed r then write_text w p (json_dumps env (JObj config') @ [nl]) else w) \<and>
      (\<forall>k. k \<noteq> ''imports'' \<and> k \<noteq> ''nodeModulesDir'' \<longrightarrow> map_of config' k = map_of config k)"
proof -
  obtain config1 imps where eo: "ensure_object (JObj config) ''imports'' = Inr (config1, imps)"
    using ensure_object_total by blast
  obtain config2 chg where ed: "edit_deno_config env config1 imps = (config2, chg)"
    by (cases "edit_deno_config env config1 imps")
  note run = update_deno_config_run[OF assms eo ed]
  note sm = deno_edit_summary[OF eo ed]
  define r where "r = (if chg
      then \<lparr>changed = True,
            notes = [''Updated '' @ p @ '' with import map entries and nodeModulesDir.''],
            warnings = (if path_suffix p = ''.jsonc''
                        then [''Rewrote '' @ p @ '' as JSON (comments removed).'']
                        else [])\<rparr>
      else new_result)"
  have "update_deno_config env w =
        Inr (r, if changed r then write_text w p (json_dumps env (JObj config2) @ [nl]) else w)"
    using run by (simp add: r_def new_result_def)
  with sm(4) show ?thesis
    by (intro exI[of _ r] exI[of _ config2] conjI)
qed

lemma package_frame:
  assumes "read_text w ''package.json'' = Inr text"
    and "json_loads env text = Inr (JObj pkg)"
  shows "\<exists>r pkg' deps'.
      update_package_json env w =
        Inr (r, if changed r
                then write_text w ''package.json'' (json_dumps env (JObj pkg') @ [nl]) else w) \<and>
      (\<forall>k. k \<noteq> ''dependencies'' \<longrightarrow> map_of pkg' k = map_of pkg k) \<and>
      map_of pkg' ''dependencies'' = Some (JObj deps') \<and>
      (\<forall>old k. map_of pkg ''dependencies'' = Some (JObj old) \<and> k \<noteq> ''@kt-tools/css-ts''
          \<longrightarrow> map_of deps' k = map_of old k)"
proof -
  obtain pkg1 deps where eo: "ensure_object (JObj pkg) ''dependencies'' = Inr (pkg1, deps)"
    using ensure_object_total by blast
  note run = update_package_json_run[OF assms eo]
  note cases = ensure_object_cases[OF eo]
  have fr: "\<forall>k. k \<noteq> ''dependencies'' \<longrightarrow> map_of pkg1 k = map_of pkg k"
    using ensure_object_frame[OF eo] by simp
  have st: "map_of pkg1 ''dependencies'' = Some (JObj deps)"
    by (rule ensure_object_stored[OF eo])
  have old: "\<forall>old. map_of pkg ''dependencies'' = Some (JObj old) \<longrightarrow> old = deps"
    using cases by auto
  show ?thesis
  proof (cases "map_of deps ''@kt-tools/css-ts'' = None")
    case True
    let ?deps' = "AList.update ''@kt-tools/css-ts'' (JStr (read_css_ts_specifier env)) deps"
    let ?pkg' = "AList.update ''dependencies'' (JObj ?deps') pkg1"
    let ?r = "\<lparr>changed = True,
                 notes = [''Added @kt-tools/css-ts to dependencies in package.json.''],
                 warnings = []\<rparr>"
    have a: "update_package_json env w =
        Inr (?r, if changed ?r
                then write_text w ''package.json'' (json_dumps env (JObj ?pkg') @ [nl]) else w)"
      using run True by simp
    have b: "\<forall>k. k \<noteq> ''dependencies'' \<longrightarrow> map_of ?pkg' k = map_of pkg k"
      using fr by (simp add: update_conv')
    have c: "map_of ?pkg' ''dependencies'' = Some (JObj ?deps')"
      by (simp add: update_conv')
    have d: "\<forall>old k. map_of pkg ''dependencies'' = Some (JObj old) \<and> k \<noteq> ''@kt-tools/css-ts''
          \<longrightarrow> map_of ?deps' k = map_of old k"
      using old by (auto simp: update_conv')
    from a b c d show ?thesis
      by (intro exI[of _ ?r] exI[of _ ?pkg'] exI[of _ ?deps'] conjI)
  next
    case False
    have a: "update_package_json env w =
        Inr (new_result, if changed new_result
                then write_text w ''package.json'' (json_dumps env (JObj pkg1) @ [nl]) else w)"
      using run False by (simp add: new_result_def)
    have d: "\<forall>old k. map_of pkg ''dependencies'' = Some (JObj old) \<and> k \<noteq> ''@kt-tools/css-ts''
          \<longrightarrow> map_of deps k = map_of old k"
      using old by auto
    from a fr st d show ?thesis
      by (intro exI[of _ new_result] exI[of _ pkg1] exI[of _ deps] conjI)
  qed
qed

lemma specifier_try_Some:
  "specifier_try env = Inr (Some s) \<longleftrightarrow>
     (\<exists>v. versioned env v \<and> s = ''npm:@jsr/kt-tools__css-ts@^'' @ v)"
  by (auto simp: specifier_try_def read_descriptor_def versioned_def
      split: option.splits node.splits sum.splits json.splits if_splits)

section \<open>The matcher and the patterns\<close>

lemma rmatch_star_chr:
  "\<not> p c \<Longrightarrow>
   rmatch (Star p # Chr c # rs) bol s =
     (case dropWhile p s of [] \<Rightarrow> None | x # t \<Rightarrow> if x = c then rmatch rs (x = nl) t else None)"
proof (induction s arbitrary: bol)
  case Nil
  then show ?case by simp
next
  case (Cons x xs)
  show ?case
  proof (cases "p x")
    case True
    with Cons.prems have "x \<noteq> c" by auto
    with True Cons show ?thesis by (simp split: option.splits)
  next
    case False
    then show ?thesis by simp
  qed
qed

lemma dropWhile_all: "list_all p w \<Longrightarrow> \<not> p c \<Longrightarrow> dropWhile p (w @ c # t) = c # t"
  by (induction w) auto

lemma dropWhile_split:
  "dropWhile p s = c # t \<Longrightarrow> \<exists>w. s = w @ c # t \<and> list_all p w"
  by (metis takeWhile_dropWhile_id list_all_iff set_takeWhileD)

lemma rmatch_simple:
  "simple rs \<Longrightarrow> (rmatch rs bol s = Some r) = (\<exists>m. s = m @ r \<and> matches rs m)"
proof (induction rs arbitrary: bol s rule: simple.induct)
  case 1
  then show ?case by auto
next
  case (2 c rs)
  then show ?case by (cases s) auto
next
  case (3 p c rs)
  then have npc: "\<not> p c" and sr: "simple rs" by simp_all
  note IH = "3.IH"[OF sr]
  note sc = rmatch_star_chr[of p c rs, OF npc]
  show ?case
  proof
    assume "rmatch (Star p # Chr c # rs) bol s = Some r"
    then obtain t where d: "dropWhile p s = c # t" and r: "rmatch rs (c = nl) t = Some r"
      by (auto simp: sc split: list.splits if_splits)
    from dropWhile_split[OF d] obtain w where w: "s = w @ c # t" "list_all p w" by blast
    from r IH obtain m where m: "t = m @ r" "matches rs m" by blast
    have "s = (w @ c # m) @ r" using w m by simp
    moreover have "matches (Star p # Chr c # rs) (w @ c # m)" using w m by auto
    ultimately show "\<exists>m. s = m @ r \<and> matches (Star p # Chr c # rs) m" by blast
  next
    assume "\<exists>m. s = m @ r \<and> matches (Star p # Chr c # rs) m"
    then obtain w m' where s: "s = w @ c # m' @ r" and w: "list_all p w" and m': "matches rs m'"
      by auto
    have "dropWhile p s = c # m' @ r" using s dropWhile_all[OF w npc] by simp
    moreover have "rmatch rs (c = nl) (m' @ r) = Some r" using IH m' by blast
    ultimately show "rmatch (Star p # Chr c # rs) bol s = Some r"
      by (simp add: sc)
  qed
qed simp_all

lemma rsearch_None:
  "simple rs \<Longrightarrow> rsearch rs bol pre s = None \<Longrightarrow> nowhere (matches rs) s"
proof (induction s arbitrary: bol pre)
  case Nil
  then have "rmatch rs bol [] = None" by (simp split: option.splits)
  then have "\<not> matches rs []" using rmatch_simple[OF Nil.prems(1), of bol "[]" "[]"] by simp
  then show ?case by (simp add: nowhere_def)
next
  case (Cons x xs)
  from Cons.prems(2) have none: "rmatch rs bol (x # xs) = None"
    and rest: "rsearch rs (x = nl) (pre @ [x]) xs = None"
    by (simp_all split: option.splits)
  have nw: "nowhere (matches rs) xs" by (rule Cons.IH[OF Cons.prems(1) rest])
  show ?case unfolding nowhere_def
  proof (intro allI impI)
    fix p m b assume d: "x # xs = p @ m @ b"
    show "\<not> matches rs m"
    proof (cases p)
      case Nil
      show ?thesis
      proof
        assume "matches rs m"
        with d Nil have "rmatch rs bol (x # xs) = Some b"
          using rmatch_simple[OF Cons.prems(1), of bol "x # xs" b] by auto
        with none show False by simp
      qed
    next
      case (Cons y p')
      with d have "xs = p' @ m @ b" by simp
      with nw show ?thesis by (auto simp: nowhere_def)
    qed
  qed
qed

lemma rsearch_Some:
  "simple rs \<Longrightarrow> rsearch rs bol pre s = Some (a, m, b) \<Longrightarrow>
   \<exists>p. a = pre @ p \<and> first_at (matches rs) s p m b"
proof (induction s arbitrary: bol pre)
  case Nil
  from Nil.prems(2) obtain r where r: "rmatch rs bol [] = Some r" and e: "a = pre" "m = []" "b = r"
    by (auto split: option.splits)
  from r rmatch_simple[OF Nil.prems(1), of bol "[]" r] have "r = []" "matches rs []" by auto
  with e show ?case by (auto simp: first_at_def)
next
  case (Cons x xs)
  show ?case
  proof (cases "rmatch rs bol (x # xs)")
    case (Some r)
    with Cons.prems(2) have e: "a = pre" "m = take (length (x # xs) - length r) (x # xs)" "b = r"
      by auto
    from Some rmatch_simple[OF Cons.prems(1), of bol "x # xs" r]
    obtain m0 where m0: "x # xs = m0 @ r" "matches rs m0" by auto
    then have "take (length (x # xs) - length r) (x # xs) = m0"
      by (metis append_eq_conv_conj length_append add_diff_cancel_right')
    with e m0 show ?thesis by (auto simp: first_at_def)
  next
    case None
    with Cons.prems(2) have rest: "rsearch rs (x = nl) (pre @ [x]) xs = Some (a, m, b)" by simp
    from Cons.IH[OF Cons.prems(1) rest] obtain p
      where p: "a = (pre @ [x]) @ p" "first_at (matches rs) xs p m b" by blast
    have "first_at (matches rs) (x # xs) (x # p) m b" unfolding first_at_def
    proof (intro conjI allI impI)
      show "x # xs = (x # p) @ m @ b" using p(2) by (simp add: first_at_def)
      show "matches rs m" using p(2) by (simp add: first_at_def)
      fix p' m' b' assume d: "x # xs = p' @ m' @ b' \<and> matches rs m'"
      show "length (x # p) \<le> length p'"
      proof (cases p')
        case Nil
        with d have "rmatch rs bol (x # xs) = Some b'"
          using rmatch_simple[OF Cons.prems(1), of bol "x # xs" b'] by auto
        with None show ?thesis by simp
      next
        case (Cons y p'')
        with d have "xs = p'' @ m' @ b' \<and> matches rs m'" by simp
        with p(2) have "length p \<le> length p''" unfolding first_at_def by blast
        with Cons show ?thesis by simp
      qed
    qed
    with p(1) show ?thesis by auto
  qed
qed

lemma first_at_unique:
  assumes "simple rs" "first_at (matches rs) s p m b" "first_at (matches rs) s p' m' b'"
  shows "p' = p \<and> m' = m \<and> b' = b"
proof -
  have "length p \<le> length p'" using assms(2,3) unfolding first_at_def by blast
  moreover have "length p' \<le> length p" using assms(2,3) unfolding first_at_def by blast
  ultimately have l: "length p = length p'" by simp
  from assms(2,3) have e: "p @ m @ b = p' @ m' @ b'" by (simp add: first_at_def)
  with l have pp: "p = p'" and r: "m @ b = m' @ b'" by auto
  from assms(2) have "rmatch rs True (m @ b) = Some b"
    using rmatch_simple[OF assms(1), of True "m @ b" b] by (auto simp: first_at_def)
  moreover from assms(3) have "rmatch rs True (m' @ b') = Some b'"
    using rmatch_simple[OF assms(1), of True "m' @ b'" b'] by (auto simp: first_at_def)
  ultimately have "b = b'" using r by simp
  with r pp show ?thesis by simp
qed

lemma re_search_iff:
  assumes "simple rs"
  shows "re_search rs s = Some (p, m, b) \<longleftrightarrow> first_at (matches rs) s p m b"
    and "re_search rs s = None \<longleftrightarrow> nowhere (matches rs) s"
proof -
  have some: "\<And>p m b. re_search rs s = Some (p, m, b) \<Longrightarrow> first_at (matches rs) s p m b"
    using rsearch_Some[OF assms, of True "[]" s] by (auto simp: re_search_def)
  have none: "re_search rs s = None \<Longrightarrow> nowhere (matches rs) s"
    using rsearch_None[OF assms, of True "[]" s] by (simp add: re_search_def)
  have excl: "\<And>p m b. first_at (matches rs) s p m b \<Longrightarrow> \<not> nowhere (matches rs) s"
    by (auto simp: first_at_def nowhere_def)
  show "re_search rs s = Some (p, m, b) \<longleftrightarrow> first_at (matches rs) s p m b"
  proof
    assume "re_search rs s = Some (p, m, b)" then show "first_at (matches rs) s p m b" by (rule some)
  next
    assume f: "first_at (matches rs) s p m b"
    show "re_search rs s = Some (p, m, b)"
    proof (cases "re_search rs s")
      case None
      with none excl[OF f] show ?thesis by simp
    next
      case (Some t)
      obtain p' m' b' where t: "t = (p', m', b')" by (cases t)
      from some[of p' m' b'] Some t have "first_at (matches rs) s p' m' b'" by simp
      from first_at_unique[OF assms f this] Some t show ?thesis by simp
    qed
  qed
  show "re_search rs s = None \<longleftrightarrow> nowhere (matches rs) s"
  proof
    assume "re_search rs s = None" then show "nowhere (matches rs) s" by (rule none)
  next
    assume n: "nowhere (matches rs) s"
    show "re_search rs s = None"
    proof (cases "re_search rs s")
      case None then show ?thesis .
    next
      case (Some t)
      obtain p' m' b' where t: "t = (p', m', b')" by (cases t)
      from some[of p' m' b'] Some t have "first_at (matches rs) s p' m' b'" by simp
      with excl n show ?thesis by blast
    qed
  qed
qed

lemma simple_lit: "simple (lit L @ rs) = simple rs"
  by (induction L) (simp_all add: lit_def)

lemma matches_lit: "matches (lit L @ rs) m \<longleftrightarrow> (\<exists>m'. m = L @ m' \<and> matches rs m')"
  by (induction L arbitrary: m) (auto simp: lit_def)

lemma matches_spaced2:
  "matches [Star is_space, Chr c1, Star is_space, Chr c2] m \<longleftrightarrow>
     (\<exists>w1 w2. blank w1 \<and> blank w2 \<and> m = w1 @ [c1] @ w2 @ [c2])"
  by (auto simp: blank_def)


lemma simple_patterns:
  "simple sveltekit_rx" "simple plugins_rx" "simple resolve_rx" "simple alias_rx"
  "simple define_config_rx"
  by (simp_all add: sveltekit_rx_def plugins_rx_def resolve_rx_def alias_rx_def
      define_config_rx_def simple_lit is_space_def)

lemma matches_sveltekit: "matches sveltekit_rx = is_sveltekit_call"
  by (rule ext) (auto simp: sveltekit_rx_def matches_lit matches_spaced2 is_sveltekit_call_def simp del: matches.simps)

lemma matches_plugins: "matches plugins_rx = is_plugins_open"
  by (rule ext) (auto simp: plugins_rx_def matches_lit matches_spaced2 is_plugins_open_def simp del: matches.simps)

lemma re_sub1_first:
  "simple rs \<Longrightarrow> first_at (matches rs) s pre m post \<Longrightarrow> re_sub1 rs repl s = pre @ repl @ post"
  using re_search_iff(1)[of rs s pre m post] by (simp add: re_sub1_def)

lemma re_sub1_nowhere:
  "simple rs \<Longrightarrow> nowhere (matches rs) s \<Longrightarrow> re_sub1 rs repl s = s"
  using re_search_iff(2)[of rs s] by (simp add: re_sub1_def)

lemma sveltekit_call_head: "is_sveltekit_call m \<Longrightarrow> \<exists>t. m = CHR ''s'' # CHR ''v'' # t"
  by (auto simp: is_sveltekit_call_def)

lemma plugin_registration_step:
  assumes "\<not> contains ''ct.vite'' updated"
    and f: "first_at is_sveltekit_call updated pre m post"
  shows "plugin_step (updated, chg, warns) =
          (pre @ ''ct.vite(), sveltekit()'' @ post, True, warns)"
proof -
  from f have sub: "re_sub1 sveltekit_rx ''ct.vite(), sveltekit()'' updated
      = pre @ ''ct.vite(), sveltekit()'' @ post"
    using re_sub1_first[OF simple_patterns(1)] by (simp add: matches_sveltekit)
  from f have u: "updated = pre @ m @ post" and c: "is_sveltekit_call m"
    by (simp_all add: first_at_def)
  from sveltekit_call_head[OF c] obtain t where "m = CHR ''s'' # CHR ''v'' # t" by blast
  with u have "pre @ ''ct.vite(), sveltekit()'' @ post \<noteq> updated" by simp
  with sub assms(1) show ?thesis
    by (simp add: plugin_step_def Let_def)
qed

lemma plugin_registration_array:
  assumes "\<not> contains ''ct.vite'' updated"
    and nc: "nowhere is_sveltekit_call updated"
    and f: "first_at is_plugins_open updated pre m post"
  shows "plugin_step (updated, chg, warns) =
          (pre @ ''plugins: [ct.vite(), '' @ post, True, warns)"
proof -
  from nc have same: "re_sub1 sveltekit_rx ''ct.vite(), sveltekit()'' updated = updated"
    using re_sub1_nowhere[OF simple_patterns(1)] by (simp add: matches_sveltekit)
  from f have found: "re_search plugins_rx updated = Some (pre, m, post)"
    using re_search_iff(1)[OF simple_patterns(2)] by (simp add: matches_plugins)
  then have sub: "re_sub1 plugins_rx ''plugins: [ct.vite(), '' updated
      = pre @ ''plugins: [ct.vite(), '' @ post"
    by (simp add: re_sub1_def)
  from same found sub assms(1) show ?thesis
    by (simp add: plugin_step_def Let_def)
qed

lemma plugin_registration_none:
  assumes "\<not> contains ''ct.vite'' updated"
    and nc: "nowhere is_sveltekit_call updated"
    and np: "nowhere is_plugins_open updated"
  shows "plugin_step (updated, chg, warns) =
          (updated, chg,
           warns @ [''Could not find a plugins array in vite.config. Add ct.vite() manually.''])"
proof -
  from nc have same: "re_sub1 sveltekit_rx ''ct.vite(), sveltekit()'' updated = updated"
    using re_sub1_nowhere[OF simple_patterns(1)] by (simp add: matches_sveltekit)
  from np have none: "re_search plugins_rx updated = None"
    using re_search_iff(2)[OF simple_patterns(2)] by (simp add: matches_plugins)
  from same none assms(1) show ?thesis
    by (simp add: plugin_step_def Let_def)
qed

lemmas rx_eval = re_search_def re_sub1_def sveltekit_rx_def plugins_rx_def resolve_rx_def
  alias_rx_def define_config_rx_def lit_def is_space_def nl_def

section \<open>Substrings and the steps of the bundler mutator\<close>





































section \<open>The sample runs\<close>

lemmas strip_eval = strip_json_comments_def strip_loop_scan exclusive_def flags_state_def

lemmas world_eval = sample_project_def sample_world_def path_exists_def read_text_def
  DENO_CONFIG_CANDIDATES_def VITE_CONFIG_CANDIDATES_def

lemmas text_eval = sample_deno_text_def sample_deno_done_text_def sample_pkg_text_def
  sample_pkg_done_text_def sample_vite_text_def sample_vite_done_text_def nl_def

lemmas env_eval = sample_env_def released_env_def sample_loads_def parse_json_like_def
  read_css_ts_specifier_def specifier_try_def read_descriptor_def

lemma sample_find_deno: "find_first sample_project DENO_CONFIG_CANDIDATES = Some ''deno.json''"
  by (simp add: world_eval)

lemma sample_read_deno: "read_text sample_project ''deno.json'' = Inr sample_deno_text"
  by (simp add: world_eval)

lemma sample_strip_deno: "strip_json_comments sample_deno_text = sample_deno_text"
  by (simp add: strip_eval text_eval dq_def bs_def)

lemma sample_parse_deno:
  "parse_json_like sample_env sample_deno_text = Inr (JObj sample_deno_config)"
  by (simp add: parse_json_like_def sample_strip_deno sample_env_def sample_loads_def)
    (simp add: text_eval)

lemma sample_read_pkg: "read_text sample_project ''package.json'' = Inr sample_pkg_text"
  by (simp add: world_eval)

lemma sample_loads_pkg: "json_loads sample_env sample_pkg_text = Inr (JObj sample_pkg)"
  by (simp add: sample_env_def sample_loads_def) (simp add: text_eval)

lemma sample_specifier: "read_css_ts_specifier sample_env = ''npm:@jsr/kt-tools__css-ts''"
  by (simp add: env_eval)

lemma sample_dumps_deno: "json_dumps sample_env (JObj sample_deno_done) = sample_deno_done_text"
  by (simp add: sample_env_def sample_dumps_def)

lemma sample_dumps_pkg: "json_dumps sample_env (JObj sample_pkg_done) = sample_pkg_done_text"
  by (simp add: sample_env_def sample_dumps_def sample_pkg_done_def sample_deno_done_def)

lemma sample_deno_run:
  "update_deno_config sample_env sample_project =
     Inr (\<lparr>changed = True,
           notes = [''Updated deno.json with import map entries and nodeModulesDir.''],
           warnings = []\<rparr>,
          write_text sample_project ''deno.json'' (sample_deno_done_text @ [nl]))"
proof -
  have eo: "ensure_object (JObj sample_deno_config) ''imports'' =
      Inr (sample_deno_config, [(''svelte'', JStr ''npm:svelte@^4.0.0'')])"
    by (simp add: ensure_object_def sample_deno_config_def)
  have ed: "edit_deno_config sample_env sample_deno_config [(''svelte'', JStr ''npm:svelte@^4.0.0'')] =
      (sample_deno_done, True)"
    by (simp add: edit_deno_config_def required_imports_def readme_version_def
        README_VERSIONS_def sample_specifier sample_deno_config_def sample_deno_done_def)
  have sf: "path_suffix ''deno.json'' = ''.json''"
    by (simp add: path_suffix_def)
  show ?thesis
    using update_deno_config_run[OF sample_find_deno sample_read_deno sample_parse_deno eo ed]
    by (simp add: sample_dumps_deno sf)
qed

lemma sample_package_run:
  "update_package_json sample_env sample_project =
     Inr (\<lparr>changed = True,
           notes = [''Added @kt-tools/css-ts to dependencies in package.json.''],
           warnings = []\<rparr>,
          write_text sample_project ''package.json'' (sample_pkg_done_text @ [nl]))"
proof -
  have eo: "ensure_object (JObj sample_pkg) ''dependencies'' =
      Inr (sample_pkg, [(''svelte'', JStr ''^5.0.0'')])"
    by (simp add: ensure_object_def sample_pkg_def)
  have u: "AList.update ''dependencies''
             (JObj (AList.update ''@kt-tools/css-ts'' (JStr (read_css_ts_specifier sample_env))
                [(''svelte'', JStr ''^5.0.0'')])) sample_pkg = sample_pkg_done"
    by (simp add: sample_specifier sample_pkg_def sample_pkg_done_def)
  have "update_package_json sample_env sample_project =
     Inr (\<lparr>changed = True,
           notes = [''Added @kt-tools/css-ts to dependencies in package.json.''],
           warnings = []\<rparr>,
          write_text sample_project ''package.json''
            (json_dumps sample_env (JObj sample_pkg_done) @ [nl]))"
    unfolding u[symmetric]
    using update_package_json_run[OF sample_read_pkg sample_loads_pkg eo]
    by simp
  then show ?thesis by (simp only: sample_dumps_pkg)
qed

lemma sample_vite_steps:
  "alias_step False (plugin_step (import_step (sample_vite_text, False, []))) =
     (sample_vite_done_text, True, [])"
  by (simp add: import_step_def plugin_step_def alias_step_def insert_import_def rx_eval
      import_rx_def text_eval Let_def)

lemma sample_find_vite: "find_first sample_project VITE_CONFIG_CANDIDATES = Some ''vite.config.ts''"
  by (simp add: world_eval)

lemma sample_read_vite: "read_text sample_project ''vite.config.ts'' = Inr sample_vite_text"
  by (simp add: world_eval)

lemma sample_vite_run:
  "update_vite_config sample_project False =
     Inr (\<lparr>changed = True,
           notes = [''Updated vite.config.ts with CSS-TS Vite plugin configuration.''],
           warnings = []\<rparr>,
          write_text sample_project ''vite.config.ts'' sample_vite_done_text)"
  by (simp add: update_vite_config_def sample_find_vite sample_read_vite sample_vite_steps)

lemma sample_done_find_deno:
  "find_first sample_project_done DENO_CONFIG_CANDIDATES = Some ''deno.json''"
  by (simp add: sample_project_done_def world_eval)

lemma sample_done_read_deno:
  "read_text sample_project_done ''deno.json'' = Inr (sample_deno_done_text @ [nl])"
  by (simp add: sample_project_done_def world_eval)

lemma sample_done_strip_deno:
  "strip_json_comments (sample_deno_done_text @ [nl]) = sample_deno_done_text @ [nl]"
  by (simp add: strip_eval text_eval dq_def bs_def)

lemma sample_loads_deno_done:
  "json_loads sample_env (sample_deno_done_text @ [nl]) = Inr (JObj sample_deno_done)"
  by (simp add: sample_env_def sample_loads_def) (simp add: text_eval)

lemma sample_done_parse_deno:
  "parse_json_like sample_env (sample_deno_done_text @ [nl]) = Inr (JObj sample_deno_done)"
  by (simp only: parse_json_like_def sample_done_strip_deno sample_loads_deno_done)

lemma sample_done_deno_run:
  "update_deno_config sample_env sample_project_done = Inr (new_result, sample_project_done)"
proof -
  have eo: "ensure_object (JObj sample_deno_done) ''imports'' =
      Inr (sample_deno_done,
        [(''svelte'', JStr ''npm:svelte@^4.0.0''),
         (''@kt-tools/css-ts'', JStr ''npm:@jsr/kt-tools__css-ts''),
         (''@sveltejs/kit'', JStr ''npm:@sveltejs/kit@^2.50.2''),
         (''@sveltejs/vite-plugin-svelte'', JStr ''npm:@sveltejs/vite-plugin-svelte@^6.2.4''),
         (''vite'', JStr ''npm:vite@^7.3.1'')])"
    by (simp add: ensure_object_def sample_deno_done_def)
  have ed: "edit_deno_config sample_env sample_deno_done
        [(''svelte'', JStr ''npm:svelte@^4.0.0''),
         (''@kt-tools/css-ts'', JStr ''npm:@jsr/kt-tools__css-ts''),
         (''@sveltejs/kit'', JStr ''npm:@sveltejs/kit@^2.50.2''),
         (''@sveltejs/vite-plugin-svelte'', JStr ''npm:@sveltejs/vite-plugin-svelte@^6.2.4''),
         (''vite'', JStr ''npm:vite@^7.3.1'')] =
      (sample_deno_done, False)"
    by (simp add: edit_deno_config_def required_imports_def readme_version_def
        README_VERSIONS_def sample_specifier sample_deno_done_def)
  show ?thesis
    using update_deno_config_run[OF sample_done_find_deno sample_done_read_deno
        sample_done_parse_deno eo ed]
    by simp
qed

lemma sample_done_read_pkg:
  "read_text sample_project_done ''package.json'' = Inr (sample_pkg_done_text @ [nl])"
  by (simp add: sample_project_done_def world_eval)

lemma sample_loads_pkg_done:
  "json_loads sample_env (sample_pkg_done_text @ [nl]) = Inr (JObj sample_pkg_done)"
  by (simp add: sample_env_def sample_loads_def) (simp add: text_eval)

lemma sample_done_package_run:
  "update_package_json sample_env sample_project_done = Inr (new_result, sample_project_done)"
proof -
  have eo: "ensure_object (JObj sample_pkg_done) ''dependencies'' =
      Inr (sample_pkg_done,
        [(''svelte'', JStr ''^5.0.0''),
         (''@kt-tools/css-ts'', JStr ''npm:@jsr/kt-tools__css-ts'')])"
    by (simp add: ensure_object_def sample_pkg_done_def)
  show ?thesis
    using update_package_json_run[OF sample_done_read_pkg sample_loads_pkg_done eo]
    by simp
qed

lemma sample_done_vite_steps:
  "alias_step False (plugin_step (import_step (sample_vite_done_text, False, []))) =
     (sample_vite_done_text, False, [])"
  by (simp add: import_step_def plugin_step_def alias_step_def text_eval)

lemma sample_done_find_vite:
  "find_first sample_project_done VITE_CONFIG_CANDIDATES = Some ''vite.config.ts''"
  by (simp add: sample_project_done_def world_eval)

lemma sample_done_read_vite:
  "read_text sample_project_done ''vite.config.ts'' = Inr sample_vite_done_text"
  by (simp add: sample_project_done_def world_eval)

lemma sample_done_vite_run:
  "update_vite_config sample_project_done False = Inr (new_result, sample_project_done)"
  by (simp add: update_vite_config_def sample_done_find_vite sample_done_read_vite
      sample_done_vite_steps new_result_def)






section \<open>The claims\<close>

text \<open>
  Claim C4. For a Deno configuration that parses to a JSON object, \<open>update_deno_config\<close>
  returns, and the configuration after it holds an \<open>imports\<close> dictionary in which every key
  has the value it had in the parsed \<open>imports\<close> dictionary, and a key that was absent has
  the specifier of the table of the five required packages (the computed specifier for
  \<open>@kt-tools/css-ts\<close>, the pinned ones for the four others) or stays absent when it is not
  one of the five. So the five keys are present, an entry that existed is never overwritten,
  and \<open>nodeModulesDir\<close> is the string \<open>auto\<close>. The file is written, and \<open>changed\<close> set,
  exactly when that configuration differs from the parsed one; then the file receives its
  serialisation and a newline. The witness runs on a configuration that pins \<open>svelte\<close> to a
  version of its own: the pin is kept and the four other entries are added.
\<close>

theorem update_deno_config_object:
  assumes "find_first w DENO_CONFIG_CANDIDATES = Some p"
    and "read_text w p = Inr original"
    and "parse_json_like env original = Inr (JObj config)"
  shows "\<exists>config' imports' r.
      update_deno_config env w =
        Inr (r, if config' = config then w
                else write_text w p (json_dumps env (JObj config') @ [nl])) \<and>
      changed r = (config' \<noteq> config) \<and>
      map_of config' ''imports'' = Some (JObj imports') \<and>
      (\<forall>k. map_of imports' k =
         (case existing_import config k of
            Some x \<Rightarrow> Some x
          | None \<Rightarrow>
              map_option JStr
                (map_of
                   [(''@kt-tools/css-ts'', read_css_ts_specifier env),
                    (''@sveltejs/kit'', ''npm:@sveltejs/kit@^2.50.2''),
                    (''@sveltejs/vite-plugin-svelte'', ''npm:@sveltejs/vite-plugin-svelte@^6.2.4''),
                    (''svelte'', ''npm:svelte@^5.49.2''),
                    (''vite'', ''npm:vite@^7.3.1'')] k))) \<and>
      (\<forall>k \<in> {''@kt-tools/css-ts'', ''@sveltejs/kit'', ''@sveltejs/vite-plugin-svelte'',
               ''svelte'', ''vite''}. map_of imports' k \<noteq> None) \<and>
      (\<forall>old k v. map_of config ''imports'' = Some (JObj old) \<longrightarrow> map_of old k = Some v
          \<longrightarrow> map_of imports' k = Some v) \<and>
      map_of config' ''nodeModulesDir'' = Some (JStr ''auto'')"
proof -
  obtain config1 imps where eo: "ensure_object (JObj config) ''imports'' = Inr (config1, imps)"
    using ensure_object_total by blast
  obtain config2 chg where ed: "edit_deno_config env config1 imps = (config2, chg)"
    by (cases "edit_deno_config env config1 imps")
  note run = update_deno_config_run[OF assms eo ed]
  note sm = deno_edit_summary[OF eo ed]
  let ?imps' = "fst (add_missing (required_imports env) imps False)"
  have i1: "map_of config2 ''imports'' = Some (JObj ?imps')"
    by (rule edit_deno_config_imports[OF ed])
  have i0: "\<forall>k. map_of ?imps' k =
         (case existing_import config k of
            Some x \<Rightarrow> Some x
          | None \<Rightarrow>
              map_option JStr
                (map_of
                   [(''@kt-tools/css-ts'', read_css_ts_specifier env),
                    (''@sveltejs/kit'', ''npm:@sveltejs/kit@^2.50.2''),
                    (''@sveltejs/vite-plugin-svelte'', ''npm:@sveltejs/vite-plugin-svelte@^6.2.4''),
                    (''svelte'', ''npm:svelte@^5.49.2''),
                    (''vite'', ''npm:vite@^7.3.1'')] k))"
    unfolding add_missing_lookup ensure_object_existing[OF eo] required_imports_table by simp
  from sm(2) i1 have i2: "\<forall>k \<in> {''@kt-tools/css-ts'', ''@sveltejs/kit'', ''@sveltejs/vite-plugin-svelte'',
             ''svelte'', ''vite''}. map_of ?imps' k \<noteq> None"
    and i3: "\<forall>old k v. map_of config ''imports'' = Some (JObj old) \<longrightarrow> map_of old k = Some v
        \<longrightarrow> map_of ?imps' k = Some v"
    by auto
  define r where "r = (if chg
      then \<lparr>changed = True,
            notes = [''Updated '' @ p @ '' with import map entries and nodeModulesDir.''],
            warnings = (if path_suffix p = ''.jsonc''
                        then [''Rewrote '' @ p @ '' as JSON (comments removed).'']
                        else [])\<rparr>
      else new_result)"
  have r1: "update_deno_config env w =
        Inr (r, if config2 = config then w
                else write_text w p (json_dumps env (JObj config2) @ [nl]))"
    using run sm(1) by (simp add: r_def)
  have r2: "changed r = (config2 \<noteq> config)"
    using sm(1) by (simp add: r_def new_result_def)
  show ?thesis
    apply (rule exI[of _ config2], rule exI[of _ ?imps'], rule exI[of _ r])
    apply (intro conjI)
          apply (rule r1)
         apply (rule r2)
        apply (rule i1)
       apply (rule i0)
      apply (rule i2)
     apply (rule i3)
    apply (rule sm(3))
    done
qed

theorem update_deno_config_object_witness:
  "find_first sample_project DENO_CONFIG_CANDIDATES = Some ''deno.json'' \<and>
   read_text sample_project ''deno.json'' = Inr sample_deno_text \<and>
   parse_json_like sample_env sample_deno_text = Inr (JObj sample_deno_config) \<and>
   existing_import sample_deno_config ''svelte'' = Some (JStr ''npm:svelte@^4.0.0'') \<and>
   existing_import sample_deno_config ''vite'' = None \<and>
   (\<exists>config' imports' r.
      update_deno_config sample_env sample_project =
        Inr (r, if config' = sample_deno_config then sample_project
                else write_text sample_project ''deno.json''
                       (json_dumps sample_env (JObj config') @ [nl])) \<and>
      changed r = (config' \<noteq> sample_deno_config) \<and>
      map_of config' ''imports'' = Some (JObj imports') \<and>
      map_of imports' ''svelte'' = Some (JStr ''npm:svelte@^4.0.0'') \<and>
      map_of imports' ''vite'' = Some (JStr ''npm:vite@^7.3.1'') \<and>
      map_of imports' ''@kt-tools/css-ts'' = Some (JStr ''npm:@jsr/kt-tools__css-ts'') \<and>
      map_of imports' ''@sveltejs/kit'' = Some (JStr ''npm:@sveltejs/kit@^2.50.2'') \<and>
      map_of imports' ''@sveltejs/vite-plugin-svelte'' =
        Some (JStr ''npm:@sveltejs/vite-plugin-svelte@^6.2.4'') \<and>
      map_of config' ''nodeModulesDir'' = Some (JStr ''auto''))"
proof -
  have e1: "existing_import sample_deno_config ''svelte'' = Some (JStr ''npm:svelte@^4.0.0'')"
    by (simp add: existing_import_def sample_deno_config_def)
  have e2: "existing_import sample_deno_config ''vite'' = None"
    "existing_import sample_deno_config ''@kt-tools/css-ts'' = None"
    "existing_import sample_deno_config ''@sveltejs/kit'' = None"
    "existing_import sample_deno_config ''@sveltejs/vite-plugin-svelte'' = None"
    by (simp_all add: existing_import_def sample_deno_config_def)
  from update_deno_config_object[OF sample_find_deno sample_read_deno sample_parse_deno]
  obtain config' imports' r where
    run: "update_deno_config sample_env sample_project =
        Inr (r, if config' = sample_deno_config then sample_project
                else write_text sample_project ''deno.json''
                       (json_dumps sample_env (JObj config') @ [nl]))"
    and ch: "changed r = (config' \<noteq> sample_deno_config)"
    and im: "map_of config' ''imports'' = Some (JObj imports')"
    and va: "\<forall>k. map_of imports' k =
         (case existing_import sample_deno_config k of
            Some x \<Rightarrow> Some x
          | None \<Rightarrow>
              map_option JStr
                (map_of
                   [(''@kt-tools/css-ts'', read_css_ts_specifier sample_env),
                    (''@sveltejs/kit'', ''npm:@sveltejs/kit@^2.50.2''),
                    (''@sveltejs/vite-plugin-svelte'', ''npm:@sveltejs/vite-plugin-svelte@^6.2.4''),
                    (''svelte'', ''npm:svelte@^5.49.2''),
                    (''vite'', ''npm:vite@^7.3.1'')] k))"
    and au: "map_of config' ''nodeModulesDir'' = Some (JStr ''auto'')"
    by blast
  have v1: "map_of imports' ''svelte'' = Some (JStr ''npm:svelte@^4.0.0'')"
    using va[rule_format, of "''svelte''"] by (simp add: e1)
  have v2: "map_of imports' ''vite'' = Some (JStr ''npm:vite@^7.3.1'')"
    using va[rule_format, of "''vite''"] by (simp add: e2)
  have v3: "map_of imports' ''@kt-tools/css-ts'' = Some (JStr ''npm:@jsr/kt-tools__css-ts'')"
    using va[rule_format, of "''@kt-tools/css-ts''"] by (simp add: e2 sample_specifier)
  have v4: "map_of imports' ''@sveltejs/kit'' = Some (JStr ''npm:@sveltejs/kit@^2.50.2'')"
    using va[rule_format, of "''@sveltejs/kit''"] by (simp add: e2)
  have v5: "map_of imports' ''@sveltejs/vite-plugin-svelte'' =
        Some (JStr ''npm:@sveltejs/vite-plugin-svelte@^6.2.4'')"
    using va[rule_format, of "''@sveltejs/vite-plugin-svelte''"] by (simp add: e2)
  have "\<exists>config' imports' r.
      update_deno_config sample_env sample_project =
        Inr (r, if config' = sample_deno_config then sample_project
                else write_text sample_project ''deno.json''
                       (json_dumps sample_env (JObj config') @ [nl])) \<and>
      changed r = (config' \<noteq> sample_deno_config) \<and>
      map_of config' ''imports'' = Some (JObj imports') \<and>
      map_of imports' ''svelte'' = Some (JStr ''npm:svelte@^4.0.0'') \<and>
      map_of imports' ''vite'' = Some (JStr ''npm:vite@^7.3.1'') \<and>
      map_of imports' ''@kt-tools/css-ts'' = Some (JStr ''npm:@jsr/kt-tools__css-ts'') \<and>
      map_of imports' ''@sveltejs/kit'' = Some (JStr ''npm:@sveltejs/kit@^2.50.2'') \<and>
      map_of imports' ''@sveltejs/vite-plugin-svelte'' =
        Some (JStr ''npm:@sveltejs/vite-plugin-svelte@^6.2.4'') \<and>
      map_of config' ''nodeModulesDir'' = Some (JStr ''auto'')"
    using run ch im v1 v2 v3 v4 v5 au
    by (intro exI[of _ config'] exI[of _ imports'] exI[of _ r] conjI)
  with sample_find_deno sample_read_deno sample_parse_deno e1 e2(1) show ?thesis
    by (intro conjI)
qed

text \<open>
  Claim C2. The claim says that \<open>update_deno_config\<close> never raises on a configuration whose
  top level is not an object. The run on such a file: the text parses, \<open>ensure_object\<close> calls
  \<open>get\<close> on a value that is not a dictionary, outside the \<open>try\<close>, and the function raises
  \<open>AttributeError\<close>.
\<close>

theorem update_deno_config_top_level_not_object:
  assumes "find_first w DENO_CONFIG_CANDIDATES = Some p"
    and "read_text w p = Inr original"
    and "parse_json_like env original = Inr j"
    and "\<forall>d. j \<noteq> JObj d"
  shows "update_deno_config env w = Inl AttributeError"
  using assms
  by (cases j) (simp_all add: update_deno_config_def ensure_object_def)

theorem update_deno_config_top_level_not_object_witness:
  "find_first (sample_world [(''deno.json'', ''[]'')]) DENO_CONFIG_CANDIDATES = Some ''deno.json'' \<and>
   read_text (sample_world [(''deno.json'', ''[]'')]) ''deno.json'' = Inr ''[]'' \<and>
   parse_json_like sample_env ''[]'' = Inr (JArr []) \<and>
   (\<forall>d. JArr [] \<noteq> JObj d) \<and>
   update_deno_config sample_env (sample_world [(''deno.json'', ''[]'')]) = Inl AttributeError"
proof -
  have f: "find_first (sample_world [(''deno.json'', ''[]'')]) DENO_CONFIG_CANDIDATES = Some ''deno.json''"
    by (simp add: world_eval)
  have r: "read_text (sample_world [(''deno.json'', ''[]'')]) ''deno.json'' = Inr ''[]''"
    by (simp add: world_eval)
  have p: "parse_json_like sample_env ''[]'' = Inr (JArr [])"
    by (simp add: env_eval strip_eval)
  have n: "\<forall>d. JArr [] \<noteq> JObj d" by simp
  from update_deno_config_top_level_not_object[OF f r p n] f r p n show ?thesis
    by (intro conjI)
qed

text \<open>
  Claim C8. Whenever one of the three mutators returns a result: if \<open>changed\<close> is set, the
  run wrote the file it had located (the first Deno candidate that exists, \<open>package.json\<close>,
  the first bundler candidate that exists) with one \<open>write_text\<close> on top of the world before
  the run, the text being the serialised configuration and a newline, or the text of the
  three bundler steps, and the notes of the result are the one note of that mutator, naming
  the file; if \<open>changed\<close> is not set, the world is the one before the run, so nothing was
  written. The witness holds the three runs on the sample project, which set \<open>changed\<close>,
  and the three runs on the project already configured, which do not.
\<close>

theorem mutation_result_invariant:
  "(update_deno_config env w = Inr (r1, w1) \<longrightarrow>
      (if changed r1
       then (\<exists>p config'.
               find_first w DENO_CONFIG_CANDIDATES = Some p \<and>
               w1 = write_text w p (json_dumps env (JObj config') @ [nl]) \<and>
               notes r1 = [''Updated '' @ p @ '' with import map entries and nodeModulesDir.''])
       else w1 = w)) \<and>
   (update_package_json env w = Inr (r2, w2) \<longrightarrow>
      (if changed r2
       then (\<exists>pkg'.
               path_exists w ''package.json'' \<and>
               w2 = write_text w ''package.json'' (json_dumps env (JObj pkg') @ [nl]) \<and>
               notes r2 = [''Added @kt-tools/css-ts to dependencies in package.json.''])
       else w2 = w)) \<and>
   (update_vite_config w deno_mode = Inr (r3, w3) \<longrightarrow>
      (if changed r3
       then (\<exists>p original.
               find_first w VITE_CONFIG_CANDIDATES = Some p \<and>
               read_text w p = Inr original \<and>
               w3 = write_text w p
                      (fst (alias_step deno_mode
                              (plugin_step (import_step (original, False, []))))) \<and>
               notes r3 = [''Updated '' @ p @ '' with CSS-TS Vite plugin configuration.''])
       else w3 = w))"
  using update_deno_config_invariant[of env w r1 w1]
    update_package_json_invariant[of env w r2 w2]
    update_vite_config_invariant[of w deno_mode r3 w3]
  by (intro conjI impI) assumption+

theorem mutation_result_invariant_witness:
  "update_deno_config sample_env sample_project =
     Inr (\<lparr>changed = True,
           notes = [''Updated deno.json with import map entries and nodeModulesDir.''],
           warnings = []\<rparr>,
          write_text sample_project ''deno.json'' (sample_deno_done_text @ [nl])) \<and>
   (\<exists>p config'.
      find_first sample_project DENO_CONFIG_CANDIDATES = Some p \<and>
      write_text sample_project ''deno.json'' (sample_deno_done_text @ [nl]) =
        write_text sample_project p (json_dumps sample_env (JObj config') @ [nl]) \<and>
      [''Updated deno.json with import map entries and nodeModulesDir.''] =
        [''Updated '' @ p @ '' with import map entries and nodeModulesDir.'']) \<and>
   update_package_json sample_env sample_project =
     Inr (\<lparr>changed = True,
           notes = [''Added @kt-tools/css-ts to dependencies in package.json.''],
           warnings = []\<rparr>,
          write_text sample_project ''package.json'' (sample_pkg_done_text @ [nl])) \<and>
   (\<exists>pkg'.
      path_exists sample_project ''package.json'' \<and>
      write_text sample_project ''package.json'' (sample_pkg_done_text @ [nl]) =
        write_text sample_project ''package.json'' (json_dumps sample_env (JObj pkg') @ [nl])) \<and>
   update_vite_config sample_project False =
     Inr (\<lparr>changed = True,
           notes = [''Updated vite.config.ts with CSS-TS Vite plugin configuration.''],
           warnings = []\<rparr>,
          write_text sample_project ''vite.config.ts'' sample_vite_done_text) \<and>
   (\<exists>p original.
      find_first sample_project VITE_CONFIG_CANDIDATES = Some p \<and>
      read_text sample_project p = Inr original \<and>
      write_text sample_project ''vite.config.ts'' sample_vite_done_text =
        write_text sample_project p
          (fst (alias_step False (plugin_step (import_step (original, False, []))))) \<and>
      [''Updated vite.config.ts with CSS-TS Vite plugin configuration.''] =
        [''Updated '' @ p @ '' with CSS-TS Vite plugin configuration.'']) \<and>
   update_deno_config sample_env sample_project_done = Inr (new_result, sample_project_done) \<and>
   update_package_json sample_env sample_project_done = Inr (new_result, sample_project_done) \<and>
   update_vite_config sample_project_done False = Inr (new_result, sample_project_done) \<and>
   \<not> changed new_result \<and> notes new_result = []"
proof -
  let ?r1 = "\<lparr>changed = True,
           notes = [''Updated deno.json with import map entries and nodeModulesDir.''],
           warnings = []\<rparr>"
  let ?w1 = "write_text sample_project ''deno.json'' (sample_deno_done_text @ [nl])"
  let ?r2 = "\<lparr>changed = True,
           notes = [''Added @kt-tools/css-ts to dependencies in package.json.''],
           warnings = []\<rparr>"
  let ?w2 = "write_text sample_project ''package.json'' (sample_pkg_done_text @ [nl])"
  let ?r3 = "\<lparr>changed = True,
           notes = [''Updated vite.config.ts with CSS-TS Vite plugin configuration.''],
           warnings = []\<rparr>"
  let ?w3 = "write_text sample_project ''vite.config.ts'' sample_vite_done_text"
  note inv = mutation_result_invariant[of sample_env sample_project ?r1 ?w1 ?r2 ?w2 False ?r3 ?w3]
  from inv[THEN conjunct1, rule_format, OF sample_deno_run] have a: "\<exists>p config'.
      find_first sample_project DENO_CONFIG_CANDIDATES = Some p \<and>
      ?w1 = write_text sample_project p (json_dumps sample_env (JObj config') @ [nl]) \<and>
      [''Updated deno.json with import map entries and nodeModulesDir.''] =
        [''Updated '' @ p @ '' with import map entries and nodeModulesDir.'']"
    by (simp only: UpdateResult.select_convs if_True)
  from inv[THEN conjunct2, THEN conjunct1, rule_format, OF sample_package_run] have b: "\<exists>pkg'.
      path_exists sample_project ''package.json'' \<and>
      ?w2 = write_text sample_project ''package.json'' (json_dumps sample_env (JObj pkg') @ [nl])"
    by (simp only: UpdateResult.select_convs if_True) blast
  from inv[THEN conjunct2, THEN conjunct2, rule_format, OF sample_vite_run] have c: "\<exists>p original.
      find_first sample_project VITE_CONFIG_CANDIDATES = Some p \<and>
      read_text sample_project p = Inr original \<and>
      ?w3 = write_text sample_project p
          (fst (alias_step False (plugin_step (import_step (original, False, []))))) \<and>
      [''Updated vite.config.ts with CSS-TS Vite plugin configuration.''] =
        [''Updated '' @ p @ '' with CSS-TS Vite plugin configuration.'']"
    by (simp only: UpdateResult.select_convs if_True)
  have d: "\<not> changed new_result" "notes new_result = []"
    by (simp_all add: new_result_def)
  from a b c d sample_deno_run sample_package_run sample_vite_run
    sample_done_deno_run sample_done_package_run sample_done_vite_run
  show ?thesis by (intro conjI)
qed

text \<open>
  Claim C9. For a Deno configuration that parses to a JSON object, the configuration that
  \<open>update_deno_config\<close> writes has every top-level key other than \<open>imports\<close> and
  \<open>nodeModulesDir\<close> with the value it had. For a \<open>package.json\<close> that parses to a JSON
  object, the manifest that \<open>update_package_json\<close> writes has every top-level key other than
  \<open>dependencies\<close> with the value it had, and its \<open>dependencies\<close> dictionary has every key
  other than \<open>@kt-tools/css-ts\<close> with the value it had. The witness runs on files with a
  \<open>name\<close> key and, in the manifest, a dependency on \<open>svelte\<close>: both are kept.
\<close>

theorem mutators_preserve_other_keys:
  "(find_first w DENO_CONFIG_CANDIDATES = Some p \<and> read_text w p = Inr original \<and>
    parse_json_like env original = Inr (JObj config) \<longrightarrow>
      (\<exists>r config'.
         update_deno_config env w =
           Inr (r, if changed r then write_text w p (json_dumps env (JObj config') @ [nl])
                   else w) \<and>
         (\<forall>k. k \<noteq> ''imports'' \<and> k \<noteq> ''nodeModulesDir'' \<longrightarrow> map_of config' k = map_of config k))) \<and>
   (read_text w ''package.json'' = Inr text \<and> json_loads env text = Inr (JObj pkg) \<longrightarrow>
      (\<exists>r pkg' deps'.
         update_package_json env w =
           Inr (r, if changed r
                   then write_text w ''package.json'' (json_dumps env (JObj pkg') @ [nl])
                   else w) \<and>
         (\<forall>k. k \<noteq> ''dependencies'' \<longrightarrow> map_of pkg' k = map_of pkg k) \<and>
         map_of pkg' ''dependencies'' = Some (JObj deps') \<and>
         (\<forall>old k. map_of pkg ''dependencies'' = Some (JObj old) \<and> k \<noteq> ''@kt-tools/css-ts''
             \<longrightarrow> map_of deps' k = map_of old k)))"
proof (intro conjI impI)
  assume "find_first w DENO_CONFIG_CANDIDATES = Some p \<and> read_text w p = Inr original \<and>
    parse_json_like env original = Inr (JObj config)"
  then show "\<exists>r config'.
         update_deno_config env w =
           Inr (r, if changed r then write_text w p (json_dumps env (JObj config') @ [nl])
                   else w) \<and>
         (\<forall>k. k \<noteq> ''imports'' \<and> k \<noteq> ''nodeModulesDir'' \<longrightarrow> map_of config' k = map_of config k)"
    using deno_frame[of w p original env config] by (elim conjE) simp
next
  assume "read_text w ''package.json'' = Inr text \<and> json_loads env text = Inr (JObj pkg)"
  then show "\<exists>r pkg' deps'.
         update_package_json env w =
           Inr (r, if changed r
                   then write_text w ''package.json'' (json_dumps env (JObj pkg') @ [nl])
                   else w) \<and>
         (\<forall>k. k \<noteq> ''dependencies'' \<longrightarrow> map_of pkg' k = map_of pkg k) \<and>
         map_of pkg' ''dependencies'' = Some (JObj deps') \<and>
         (\<forall>old k. map_of pkg ''dependencies'' = Some (JObj old) \<and> k \<noteq> ''@kt-tools/css-ts''
             \<longrightarrow> map_of deps' k = map_of old k)"
    using package_frame[of w "text" env pkg] by (elim conjE) simp
qed

theorem mutators_preserve_other_keys_witness:
  "find_first sample_project DENO_CONFIG_CANDIDATES = Some ''deno.json'' \<and>
   read_text sample_project ''deno.json'' = Inr sample_deno_text \<and>
   parse_json_like sample_env sample_deno_text = Inr (JObj sample_deno_config) \<and>
   map_of sample_deno_config ''name'' = Some (JStr ''demo'') \<and>
   (\<exists>r config'.
      update_deno_config sample_env sample_project =
        Inr (r, if changed r
                then write_text sample_project ''deno.json''
                       (json_dumps sample_env (JObj config') @ [nl])
                else sample_project) \<and>
      map_of config' ''name'' = Some (JStr ''demo'')) \<and>
   read_text sample_project ''package.json'' = Inr sample_pkg_text \<and>
   json_loads sample_env sample_pkg_text = Inr (JObj sample_pkg) \<and>
   map_of sample_pkg ''name'' = Some (JStr ''demo'') \<and>
   map_of sample_pkg ''dependencies'' = Some (JObj [(''svelte'', JStr ''^5.0.0'')]) \<and>
   (\<exists>r pkg' deps'.
      update_package_json sample_env sample_project =
        Inr (r, if changed r
                then write_text sample_project ''package.json''
                       (json_dumps sample_env (JObj pkg') @ [nl])
                else sample_project) \<and>
      map_of pkg' ''name'' = Some (JStr ''demo'') \<and>
      map_of pkg' ''dependencies'' = Some (JObj deps') \<and>
      map_of deps' ''svelte'' = Some (JStr ''^5.0.0''))"
proof -
  note fr = mutators_preserve_other_keys[of sample_project "''deno.json''" sample_deno_text
      sample_env sample_deno_config sample_pkg_text sample_pkg]
  have n1: "map_of sample_deno_config ''name'' = Some (JStr ''demo'')"
    by (simp add: sample_deno_config_def)
  have n2: "map_of sample_pkg ''name'' = Some (JStr ''demo'')"
    by (simp add: sample_pkg_def)
  have d2: "map_of sample_pkg ''dependencies'' = Some (JObj [(''svelte'', JStr ''^5.0.0'')])"
    by (simp add: sample_pkg_def)
  have pre1: "find_first sample_project DENO_CONFIG_CANDIDATES = Some ''deno.json'' \<and>
      read_text sample_project ''deno.json'' = Inr sample_deno_text \<and>
      parse_json_like sample_env sample_deno_text = Inr (JObj sample_deno_config)"
    using sample_find_deno sample_read_deno sample_parse_deno by (intro conjI)
  have pre2: "read_text sample_project ''package.json'' = Inr sample_pkg_text \<and>
      json_loads sample_env sample_pkg_text = Inr (JObj sample_pkg)"
    using sample_read_pkg sample_loads_pkg by (intro conjI)
  from fr[THEN conjunct1, rule_format, OF pre1]
  obtain r config' where
    a1: "update_deno_config sample_env sample_project =
        Inr (r, if changed r
                then write_text sample_project ''deno.json''
                       (json_dumps sample_env (JObj config') @ [nl])
                else sample_project)"
    and a2: "\<forall>k. k \<noteq> ''imports'' \<and> k \<noteq> ''nodeModulesDir'' \<longrightarrow>
               map_of config' k = map_of sample_deno_config k"
    by (elim exE conjE) (rule that)
  have a3: "map_of config' ''name'' = Some (JStr ''demo'')"
    using a2[rule_format, of "''name''"] n1 by simp
  have a: "\<exists>r config'.
      update_deno_config sample_env sample_project =
        Inr (r, if changed r
                then write_text sample_project ''deno.json''
                       (json_dumps sample_env (JObj config') @ [nl])
                else sample_project) \<and>
      map_of config' ''name'' = Some (JStr ''demo'')"
    using a1 a3 by (intro exI[of _ r] exI[of _ config'] conjI)
  from fr[THEN conjunct2, rule_format, OF pre2]
  obtain q pkg' deps' where
    b1: "update_package_json sample_env sample_project =
        Inr (q, if changed q
                then write_text sample_project ''package.json''
                       (json_dumps sample_env (JObj pkg') @ [nl])
                else sample_project)"
    and b2: "\<forall>k. k \<noteq> ''dependencies'' \<longrightarrow> map_of pkg' k = map_of sample_pkg k"
    and b3: "map_of pkg' ''dependencies'' = Some (JObj deps')"
    and b4: "\<forall>old k. map_of sample_pkg ''dependencies'' = Some (JObj old) \<and>
               k \<noteq> ''@kt-tools/css-ts'' \<longrightarrow> map_of deps' k = map_of old k"
    by (elim exE conjE) (rule that)
  have b5: "map_of pkg' ''name'' = Some (JStr ''demo'')"
    using b2[rule_format, of "''name''"] n2 by simp
  have b6: "map_of deps' ''svelte'' = Some (JStr ''^5.0.0'')"
    using b4[rule_format, of "[(''svelte'', JStr ''^5.0.0'')]" "''svelte''"] d2 by simp
  have b: "\<exists>r pkg' deps'.
      update_package_json sample_env sample_project =
        Inr (r, if changed r
                then write_text sample_project ''package.json''
                       (json_dumps sample_env (JObj pkg') @ [nl])
                else sample_project) \<and>
      map_of pkg' ''name'' = Some (JStr ''demo'') \<and>
      map_of pkg' ''dependencies'' = Some (JObj deps') \<and>
      map_of deps' ''svelte'' = Some (JStr ''^5.0.0'')"
    using b1 b5 b3 b6 by (intro exI[of _ q] exI[of _ pkg'] exI[of _ deps'] conjI)
  from a b n1 n2 d2 sample_find_deno sample_read_deno sample_parse_deno
    sample_read_pkg sample_loads_pkg
  show ?thesis by (intro conjI)
qed

text \<open>
  Claim C5. On a text without the token \<open>ct.vite\<close>, plugin registration does one of three
  things, in this order. If the text has a zero-argument \<open>sveltekit()\<close> call, the leftmost
  one is replaced by \<open>ct.vite(), sveltekit()\<close> and the rest of the text is kept. Otherwise,
  if the text has a \<open>plugins:\<close> array opening, the leftmost one is replaced by
  \<open>plugins: [ct.vite(), \<close> and the rest is kept. Otherwise the text is kept and the warning
  is added. The witness holds the three cases, the second on \<open>plugins: [someOtherPlugin()]\<close>.
\<close>

theorem plugin_registration_fallback:
  assumes "\<not> contains ''ct.vite'' updated"
  shows
    "(first_at is_sveltekit_call updated pre m post \<longrightarrow>
        plugin_step (updated, chg, warns) =
          (pre @ ''ct.vite(), sveltekit()'' @ post, True, warns)) \<and>
     (nowhere is_sveltekit_call updated \<and> first_at is_plugins_open updated pre m post \<longrightarrow>
        plugin_step (updated, chg, warns) =
          (pre @ ''plugins: [ct.vite(), '' @ post, True, warns)) \<and>
     (nowhere is_sveltekit_call updated \<and> nowhere is_plugins_open updated \<longrightarrow>
        plugin_step (updated, chg, warns) =
          (updated, chg,
           warns @ [''Could not find a plugins array in vite.config. Add ct.vite() manually.'']))"
proof (intro conjI impI)
  assume "first_at is_sveltekit_call updated pre m post"
  then show "plugin_step (updated, chg, warns) =
      (pre @ ''ct.vite(), sveltekit()'' @ post, True, warns)"
    by (rule plugin_registration_step[OF assms])
next
  assume a: "nowhere is_sveltekit_call updated \<and> first_at is_plugins_open updated pre m post"
  show "plugin_step (updated, chg, warns) =
      (pre @ ''plugins: [ct.vite(), '' @ post, True, warns)"
    by (rule plugin_registration_array[OF assms conjunct1[OF a] conjunct2[OF a]])
next
  assume a: "nowhere is_sveltekit_call updated \<and> nowhere is_plugins_open updated"
  show "plugin_step (updated, chg, warns) =
      (updated, chg,
       warns @ [''Could not find a plugins array in vite.config. Add ct.vite() manually.''])"
    by (rule plugin_registration_none[OF assms conjunct1[OF a] conjunct2[OF a]])
qed

theorem plugin_registration_fallback_witness:
  "\<not> contains ''ct.vite'' ''plugins: [sveltekit()]'' \<and>
   first_at is_sveltekit_call ''plugins: [sveltekit()]'' ''plugins: ['' ''sveltekit()'' '']'' \<and>
   plugin_step (''plugins: [sveltekit()]'', False, []) =
     (''plugins: [ct.vite(), sveltekit()]'', True, []) \<and>
   \<not> contains ''ct.vite'' ''plugins: [someOtherPlugin()]'' \<and>
   nowhere is_sveltekit_call ''plugins: [someOtherPlugin()]'' \<and>
   first_at is_plugins_open ''plugins: [someOtherPlugin()]'' [] ''plugins: ['' ''someOtherPlugin()]'' \<and>
   plugin_step (''plugins: [someOtherPlugin()]'', False, []) =
     (''plugins: [ct.vite(), someOtherPlugin()]'', True, []) \<and>
   \<not> contains ''ct.vite'' ''export default {}'' \<and>
   nowhere is_sveltekit_call ''export default {}'' \<and>
   nowhere is_plugins_open ''export default {}'' \<and>
   plugin_step (''export default {}'', False, []) =
     (''export default {}'', False,
      [''Could not find a plugins array in vite.config. Add ct.vite() manually.''])"
proof -
  have a1: "\<not> contains ''ct.vite'' ''plugins: [sveltekit()]''" by simp
  have a2: "first_at is_sveltekit_call ''plugins: [sveltekit()]'' ''plugins: ['' ''sveltekit()'' '']''"
    unfolding matches_sveltekit[symmetric] re_search_iff(1)[OF simple_patterns(1), symmetric]
    by (simp add: rx_eval)
  have b1: "\<not> contains ''ct.vite'' ''plugins: [someOtherPlugin()]''" by simp
  have b2: "nowhere is_sveltekit_call ''plugins: [someOtherPlugin()]''"
    unfolding matches_sveltekit[symmetric] re_search_iff(2)[OF simple_patterns(1), symmetric]
    by (simp add: rx_eval)
  have b3: "first_at is_plugins_open ''plugins: [someOtherPlugin()]'' [] ''plugins: ['' ''someOtherPlugin()]''"
    unfolding matches_plugins[symmetric] re_search_iff(1)[OF simple_patterns(2), symmetric]
    by (simp add: rx_eval)
  have c1: "\<not> contains ''ct.vite'' ''export default {}''" by simp
  have c2: "nowhere is_sveltekit_call ''export default {}''"
    unfolding matches_sveltekit[symmetric] re_search_iff(2)[OF simple_patterns(1), symmetric]
    by (simp add: rx_eval)
  have c3: "nowhere is_plugins_open ''export default {}''"
    unfolding matches_plugins[symmetric] re_search_iff(2)[OF simple_patterns(2), symmetric]
    by (simp add: rx_eval)
  from plugin_registration_fallback[OF a1, of "''plugins: [''" "''sveltekit()''" "'']''" False "[]"] a2
  have a: "plugin_step (''plugins: [sveltekit()]'', False, []) =
     (''plugins: [ct.vite(), sveltekit()]'', True, [])" by simp
  from plugin_registration_fallback[OF b1, of "[]" "''plugins: [''" "''someOtherPlugin()]''" False "[]"] b2 b3
  have b: "plugin_step (''plugins: [someOtherPlugin()]'', False, []) =
     (''plugins: [ct.vite(), someOtherPlugin()]'', True, [])" by simp
  from plugin_registration_fallback[OF c1, of "[]" "[]" "[]" False "[]"] c2 c3
  have c: "plugin_step (''export default {}'', False, []) =
     (''export default {}'', False,
      [''Could not find a plugins array in vite.config. Add ct.vite() manually.''])" by simp
  from a1 a2 a b1 b2 b3 b c1 c2 c3 c show ?thesis by (intro conjI)
qed

text \<open>
  Claim C7. \<open>read_css_ts_specifier\<close> returns a string for every state of the tool's version
  descriptor: the versioned specifier built from \<open>v\<close> when the descriptor gives the version
  \<open>v\<close>, and the unversioned specifier in every other case (file missing, unreadable,
  unparsable, not an object, version absent, empty or not a string).
\<close>

theorem read_css_ts_specifier_cases:
  "(versioned env v \<longrightarrow> read_css_ts_specifier env = ''npm:@jsr/kt-tools__css-ts@^'' @ v) \<and>
   ((\<forall>u. \<not> versioned env u) \<longrightarrow> read_css_ts_specifier env = ''npm:@jsr/kt-tools__css-ts'')"
proof (intro conjI impI)
  assume "versioned env v"
  then have "specifier_try env = Inr (Some (''npm:@jsr/kt-tools__css-ts@^'' @ v))"
    by (auto simp: specifier_try_def read_descriptor_def versioned_def)
  then show "read_css_ts_specifier env = ''npm:@jsr/kt-tools__css-ts@^'' @ v"
    by (simp add: read_css_ts_specifier_def)
next
  assume none: "\<forall>u. \<not> versioned env u"
  have "\<And>s. specifier_try env \<noteq> Inr (Some s)"
    using none by (simp add: specifier_try_Some)
  then show "read_css_ts_specifier env = ''npm:@jsr/kt-tools__css-ts''"
    by (auto simp: read_css_ts_specifier_def split: sum.splits option.splits)
qed

theorem read_css_ts_specifier_cases_witness:
  "versioned released_env ''1.2.3'' \<and>
   read_css_ts_specifier released_env = ''npm:@jsr/kt-tools__css-ts@^1.2.3'' \<and>
   (\<forall>u. \<not> versioned sample_env u) \<and>
   read_css_ts_specifier sample_env = ''npm:@jsr/kt-tools__css-ts''"
proof -
  have a: "versioned released_env ''1.2.3''"
    by (simp add: versioned_def released_env_def sample_env_def sample_loads_def)
  have b: "\<forall>u. \<not> versioned sample_env u"
    by (simp add: versioned_def sample_env_def)
  from a b read_css_ts_specifier_cases[of released_env "''1.2.3''"]
    read_css_ts_specifier_cases[of sample_env "[]"]
  show ?thesis by simp
qed

text \<open>
  Claim C10. In a project root without \<open>package.json\<close>, \<open>run_package_install\<close> returns
  \<open>False\<close> after the one probe for \<open>package.json\<close>: it probes no lock file and runs no
  command, whatever the lock files and the external command would do.
\<close>

theorem run_package_install_without_manifest:
  "files w ''package.json'' = None \<Longrightarrow>
   run_package_install env w = (False, [Probe ''package.json''])"
  by (simp add: run_package_install_def path_exists_def)

theorem run_package_install_without_manifest_witness:
  "files (sample_world [(''pnpm-lock.yaml'', [])]) ''package.json'' = None \<and>
   run_package_install sample_env (sample_world [(''pnpm-lock.yaml'', [])]) =
     (False, [Probe ''package.json''])"
  using run_package_install_without_manifest[of "sample_world [(''pnpm-lock.yaml'', [])]" sample_env]
  by (simp add: sample_world_def)




end
